theory Spec2Isabelle
  imports Main "HOL-Library.Sublist"
begin

section \<open>Text primitives\<close>

text \<open>
  Python \<open>str\<close> values are modelled as \<open>string\<close>, that is over the code points 0
  to 255.  There \<open>str.isspace\<close>, \<open>str.strip\<close> and the regex class \<open>\s\<close> hold for the
  code points 9-13, 28-32, 133 (next line) and 160 (no-break space), and \<open>\d\<close> holds for
  the ten digits.  Case is modelled for the 52 ASCII letters; the other characters are
  left as they are by \<open>lower\<close> and \<open>title\<close>.  JSON numbers are integers.
\<close>

definition is_digit :: "char \<Rightarrow> bool" where
  "is_digit c = (c \<in> set ''0123456789'')"

definition is_space :: "char \<Rightarrow> bool" where
  "is_space c =
     (let n = (of_char c :: nat)
      in (9 \<le> n \<and> n \<le> 13) \<or> (28 \<le> n \<and> n \<le> 32) \<or> n = 133 \<or> n = 160)"

definition is_upper :: "char \<Rightarrow> bool" where
  "is_upper c = (c \<in> set ''ABCDEFGHIJKLMNOPQRSTUVWXYZ'')"

definition is_lower :: "char \<Rightarrow> bool" where
  "is_lower c = (c \<in> set ''abcdefghijklmnopqrstuvwxyz'')"

definition is_cased :: "char \<Rightarrow> bool" where
  "is_cased c = (is_upper c \<or> is_lower c)"

text \<open>Upper and lower case ASCII letters differ in bit 5 only.\<close>

fun to_lower :: "char \<Rightarrow> char" where
  "to_lower (Char b0 b1 b2 b3 b4 b5 b6 b7) =
     (if is_upper (Char b0 b1 b2 b3 b4 b5 b6 b7) then Char b0 b1 b2 b3 b4 True b6 b7
      else Char b0 b1 b2 b3 b4 b5 b6 b7)"

fun to_upper :: "char \<Rightarrow> char" where
  "to_upper (Char b0 b1 b2 b3 b4 b5 b6 b7) =
     (if is_lower (Char b0 b1 b2 b3 b4 b5 b6 b7) then Char b0 b1 b2 b3 b4 False b6 b7
      else Char b0 b1 b2 b3 b4 b5 b6 b7)"

text \<open>\<open>s.lower()\<close>\<close>

definition lower :: "string \<Rightarrow> string" where
  "lower s = map to_lower s"

text \<open>\<open>s.strip()\<close>: whitespace removed at both ends.\<close>

definition strip :: "string \<Rightarrow> string" where
  "strip s = rev (dropWhile is_space (rev (dropWhile is_space s)))"

text \<open>
  \<open>s.title()\<close>: a cased character is upper-cased when the character before it is not
  cased, and lower-cased otherwise.
\<close>

fun title_from :: "bool \<Rightarrow> string \<Rightarrow> string" where
  "title_from prev [] = []"
| "title_from prev (c # cs) =
     (if prev then to_lower c else to_upper c) # title_from (is_cased c) cs"

definition title :: "string \<Rightarrow> string" where
  "title s = title_from False s"

fun starts_with :: "string \<Rightarrow> string \<Rightarrow> bool" where
  "starts_with [] s = True"
| "starts_with (p # ps) [] = False"
| "starts_with (p # ps) (c # cs) = (p = c \<and> starts_with ps cs)"

text \<open>\<open>sub in s\<close> on strings: \<open>sub\<close> occurs as a contiguous substring of \<open>s\<close>.\<close>

fun py_in :: "string \<Rightarrow> string \<Rightarrow> bool" where
  "py_in sub [] = (sub = [])"
| "py_in sub (c # cs) = (starts_with sub (c # cs) \<or> py_in sub cs)"

section \<open>Anchored regular expressions of the denylist\<close>

text \<open>
  The patterns of \<open>DatabaseCleaner.fake_team_patterns\<close> all have the form \<open>^r$\<close> and are
  used with \<open>re.match(pattern, team, re.IGNORECASE)\<close>, so only whether the whole string
  belongs to the language of \<open>r\<close> matters.  Membership is decided with derivatives.
\<close>

datatype rx =
    Zero
  | Eps
  | Lit char
  | Digit
  | Space
  | Seq rx rx
  | Alt rx rx
  | Star rx

fun nullable :: "rx \<Rightarrow> bool" where
  "nullable Zero = False"
| "nullable Eps = True"
| "nullable (Lit c) = False"
| "nullable Digit = False"
| "nullable Space = False"
| "nullable (Seq r s) = (nullable r \<and> nullable s)"
| "nullable (Alt r s) = (nullable r \<or> nullable s)"
| "nullable (Star r) = True"

text \<open>The derivative under \<open>re.IGNORECASE\<close>: a literal matches both of its cases.\<close>

fun deriv :: "char \<Rightarrow> rx \<Rightarrow> rx" where
  "deriv x Zero = Zero"
| "deriv x Eps = Zero"
| "deriv x (Lit c) = (if to_lower x = to_lower c then Eps else Zero)"
| "deriv x Digit = (if is_digit x then Eps else Zero)"
| "deriv x Space = (if is_space x then Eps else Zero)"
| "deriv x (Seq r s) =
     (if nullable r then Alt (Seq (deriv x r) s) (deriv x s) else Seq (deriv x r) s)"
| "deriv x (Alt r s) = Alt (deriv x r) (deriv x s)"
| "deriv x (Star r) = Seq (deriv x r) (Star r)"

fun rx_accepts :: "rx \<Rightarrow> string \<Rightarrow> bool" where
  "rx_accepts r [] = nullable r"
| "rx_accepts r (c # cs) = rx_accepts (deriv c r) cs"

text \<open>
  \<open>re.match('^r$', s, re.IGNORECASE)\<close> succeeds: \<open>$\<close> matches at the end of the string and
  also just before a newline that ends the string.
\<close>

definition re_match_anchored :: "rx \<Rightarrow> string \<Rightarrow> bool" where
  "re_match_anchored r s =
     (rx_accepts r s \<or> (s \<noteq> [] \<and> last s = CHR 0x0A \<and> rx_accepts r (butlast s)))"

definition rx_str :: "string \<Rightarrow> rx" where
  "rx_str s = foldr (\<lambda>c r. Seq (Lit c) r) s Eps"

definition rx_plus :: "rx \<Rightarrow> rx" where
  "rx_plus r = Seq r (Star r)"

text \<open>\<open>\d+(?:st|nd|rd|th)\<close>\<close>

definition rx_ordinal :: rx where
  "rx_ordinal =
     Seq (rx_plus Digit)
       (Alt (rx_str ''st'') (Alt (rx_str ''nd'') (Alt (rx_str ''rd'') (rx_str ''th''))))"

section \<open>Scraped values\<close>

text \<open>
  A field of a career entry, as \<open>json.loads\<close> delivers it: \<open>None\<close>, a boolean, an integer
  or a string.
\<close>

datatype jval = JNull | JBool bool | JNum int | JStr string

text \<open>Python truthiness, \<open>bool(v)\<close>.\<close>

fun truthy :: "jval \<Rightarrow> bool" where
  "truthy JNull = False"
| "truthy (JBool b) = b"
| "truthy (JNum n) = (n \<noteq> 0)"
| "truthy (JStr s) = (s \<noteq> [])"

definition digit_char :: "nat \<Rightarrow> char" where
  "digit_char n = ''0123456789'' ! (n mod 10)"

function str_nat :: "nat \<Rightarrow> string" where
  "str_nat n = (if n < 10 then [digit_char n] else str_nat (n div 10) @ [digit_char n])"
  by pat_completeness auto
termination
  by (relation "measure id") auto

declare str_nat.simps [simp del]

text \<open>\<open>str(v)\<close>\<close>

fun py_str :: "jval \<Rightarrow> string" where
  "py_str JNull = ''None''"
| "py_str (JBool b) = (if b then ''True'' else ''False'')"
| "py_str (JNum n) = (if n < 0 then CHR ''-'' # str_nat (nat (- n)) else str_nat (nat n))"
| "py_str (JStr s) = s"

text \<open>\<open>pd.isna(v)\<close> on a scalar.\<close>

fun isna :: "jval \<Rightarrow> bool" where
  "isna JNull = True"
| "isna _ = False"

section \<open>Noise classifier (\<open>DatabaseCleaner\<close>)\<close>

definition fake_team_patterns :: "rx list" where
  "fake_team_patterns =
     [rx_str ''S-Tier'', rx_str ''A-Tier'', rx_str ''B-Tier'', rx_str ''C-Tier'',
      rx_str ''D-Tier'',
      rx_ordinal,
      Seq rx_ordinal (Seq (Star Space) (Seq (Lit CHR ''-'') (Seq (Star Space) rx_ordinal))),
      rx_str ''Retired'', rx_str ''Inactive'', rx_str ''Active'',
      rx_str ''Qualifier'', rx_str ''Showmatch'',
      rx_str ''TBD'', rx_str ''TBA'', rx_str ''Unknown'',
      rx_str ''N/A'', rx_str ''None'', Star Space,
      rx_plus Digit]"

definition fake_teams_exact :: "string list" where
  "fake_teams_exact =
     [''S-Tier'', ''A-Tier'', ''B-Tier'', ''C-Tier'', ''D-Tier'',
      ''Retired'', ''Inactive'', ''Active'',
      ''Qualifier'', ''Qualifiers'', ''Showmatch'',
      ''1st'', ''2nd'', ''3rd'', ''4th'', ''5th'', ''6th'', ''7th'', ''8th'',
      ''3rd - 4th'', ''5th - 6th'', ''7th - 8th'',
      ''TBD'', ''TBA'', ''Unknown'', ''N/A'', ''None'']"

definition is_fake_team :: "jval \<Rightarrow> bool" where
  "is_fake_team team_name =
     (if isna team_name \<or> \<not> truthy team_name \<or> strip (py_str team_name) = [] then True
      else
        let team = strip (py_str team_name) in
        if team \<in> set fake_teams_exact then True
        else if list_ex (\<lambda>pattern. re_match_anchored pattern team) fake_team_patterns then True
        else False)"

section \<open>Calendar dates\<close>

text \<open>
  A calendar date (year, month, day).  \<open>toordinal\<close> is the proleptic Gregorian day number of
  \<open>datetime.date.toordinal\<close>: day 1 is 0001-01-01.
\<close>

type_synonym date = "nat \<times> nat \<times> nat"

datatype error =
    KeyError string
  | IndexError
  | AttributeError
  | TypeError
  | ValueError
  | JSONDecodeError
  | ZeroDivisionError

definition is_leap :: "nat \<Rightarrow> bool" where
  "is_leap y = (y mod 4 = 0 \<and> (y mod 100 \<noteq> 0 \<or> y mod 400 = 0))"

definition days_in_month :: "nat \<Rightarrow> nat \<Rightarrow> nat" where
  "days_in_month y m =
     (if m = 2 then (if is_leap y then 29 else 28)
      else if m = 4 \<or> m = 6 \<or> m = 9 \<or> m = 11 then 30 else 31)"

definition days_before_month :: "nat \<Rightarrow> nat \<Rightarrow> nat" where
  "days_before_month y m = sum_list (map (days_in_month y) [1..<m])"

definition days_before_year :: "nat \<Rightarrow> nat" where
  "days_before_year y = (y - 1) * 365 + (y - 1) div 4 - (y - 1) div 100 + (y - 1) div 400"

fun toordinal :: "date \<Rightarrow> int" where
  "toordinal (y, m, d) = int (days_before_year y + days_before_month y m + d)"

declare toordinal.simps [simp del]

text \<open>The dates that \<open>datetime.date(y, m, d)\<close> accepts.\<close>

fun valid_date :: "date \<Rightarrow> bool" where
  "valid_date (y, m, d) =
     (1 \<le> y \<and> y \<le> 9999 \<and> 1 \<le> m \<and> m \<le> 12 \<and> 1 \<le> d \<and> d \<le> days_in_month y m)"

definition digit_val :: "char \<Rightarrow> nat" where
  "digit_val c = of_char c - 48"

definition int_of_digits :: "string \<Rightarrow> nat" where
  "int_of_digits ds = foldl (\<lambda>a c. 10 * a + digit_val c) 0 ds"

text \<open>
  \<open>datetime.strptime(s, '%Y-%m-%d')\<close>.  The format is compiled to the regular expression
  \<open>(\d\d\d\d)-(1[0-2]|0[1-9]|[1-9])-(3[0-1]|[1-2]\d|0[1-9]|[1-9]| [1-9])\<close>, matched at the
  start of \<open>s\<close>; text left after the match and a date that does not exist are both a
  \<open>ValueError\<close>.  The month alternatives are tried in order, each followed by the dash.
\<close>

fun strptime_month :: "string \<Rightarrow> (nat \<times> string) option" where
  "strptime_month (c1 # c2 # c3 # r) =
     (if c1 = CHR ''1'' \<and> c2 \<in> set ''012'' \<and> c3 = CHR ''-''
        then Some (int_of_digits [c1, c2], r)
      else if c1 = CHR ''0'' \<and> c2 \<in> set ''123456789'' \<and> c3 = CHR ''-''
        then Some (int_of_digits [c1, c2], r)
      else if c1 \<in> set ''123456789'' \<and> c2 = CHR ''-''
        then Some (int_of_digits [c1], c3 # r)
      else None)"
| "strptime_month [c1, c2] =
     (if c1 \<in> set ''123456789'' \<and> c2 = CHR ''-'' then Some (int_of_digits [c1], []) else None)"
| "strptime_month _ = None"

fun strptime_day :: "string \<Rightarrow> (nat \<times> string) option" where
  "strptime_day (c1 # c2 # r) =
     (if c1 = CHR ''3'' \<and> c2 \<in> set ''01'' then Some (int_of_digits [c1, c2], r)
      else if c1 \<in> set ''12'' \<and> is_digit c2 then Some (int_of_digits [c1, c2], r)
      else if c1 = CHR ''0'' \<and> c2 \<in> set ''123456789'' then Some (int_of_digits [c1, c2], r)
      else if c1 \<in> set ''123456789'' then Some (int_of_digits [c1], c2 # r)
      else if c1 = CHR '' '' \<and> c2 \<in> set ''123456789'' then Some (int_of_digits [c2], r)
      else None)"
| "strptime_day [c1] = (if c1 \<in> set ''123456789'' then Some (int_of_digits [c1], []) else None)"
| "strptime_day [] = None"

definition strptime :: "string \<Rightarrow> error + date" where
  "strptime s =
     (if length s \<ge> 5 \<and> list_all is_digit (take 4 s) \<and> s ! 4 = CHR ''-'' then
        (case strptime_month (drop 5 s) of
           None \<Rightarrow> Inl ValueError
         | Some (m, r) \<Rightarrow>
             (case strptime_day r of
                None \<Rightarrow> Inl ValueError
              | Some (d, rest) \<Rightarrow>
                  if rest \<noteq> [] then Inl ValueError
                  else if valid_date (int_of_digits (take 4 s), m, d)
                    then Inr (int_of_digits (take 4 s), m, d)
                  else Inl ValueError))
      else Inl ValueError)"

section \<open>Stint builder helpers (\<open>CareerHistoryDatabase\<close>)\<close>

text \<open>\<open>'present' in v.lower()\<close>: only a \<open>str\<close> has \<open>lower\<close>.\<close>

fun present_in_lower :: "jval \<Rightarrow> error + bool" where
  "present_in_lower (JStr s) = Inr (py_in ''present'' (lower s))"
| "present_in_lower _ = Inl AttributeError"

text \<open>
  The body of the \<open>try\<close> in \<open>_calculate_duration\<close>.  \<open>now\<close> is the date of
  \<open>datetime.now()\<close>: the time of day never changes the number of whole days clamped at 0.
\<close>

definition duration_try :: "date \<Rightarrow> jval \<Rightarrow> jval \<Rightarrow> error + int" where
  "duration_try now date_start date_end =
     (case present_in_lower date_end of
        Inl e \<Rightarrow> Inl e
      | Inr is_present \<Rightarrow>
          (case (if is_present then Inr now
                 else (case date_end of JStr s \<Rightarrow> strptime s | _ \<Rightarrow> Inl TypeError)) of
             Inl e \<Rightarrow> Inl e
           | Inr end_date \<Rightarrow>
               (case (case date_start of JStr s \<Rightarrow> strptime s | _ \<Rightarrow> Inl TypeError) of
                  Inl e \<Rightarrow> Inl e
                | Inr start_date \<Rightarrow> Inr (max 0 (toordinal end_date - toordinal start_date)))))"

text \<open>\<open>_calculate_duration\<close>: the bare \<open>except\<close> turns every error into 0.\<close>

definition calculate_duration :: "date \<Rightarrow> jval \<Rightarrow> jval \<Rightarrow> int" where
  "calculate_duration now date_start date_end =
     (if \<not> truthy date_start \<or> \<not> truthy date_end then 0
      else (case duration_try now date_start date_end of Inl e \<Rightarrow> 0 | Inr d \<Rightarrow> d))"

text \<open>\<open>re.search(r'(\d{4})', s)\<close>: the leftmost four consecutive digits.\<close>

fun search_d4 :: "string \<Rightarrow> string option" where
  "search_d4 [] = None"
| "search_d4 (c # cs) =
     (if length (c # cs) \<ge> 4 \<and> list_all is_digit (take 4 (c # cs)) then Some (take 4 (c # cs))
      else search_d4 cs)"

text \<open>\<open>_extract_year\<close>\<close>

definition extract_year :: "jval \<Rightarrow> int option" where
  "extract_year date_str =
     (if \<not> truthy date_str \<or> isna date_str then None
      else (case search_d4 (py_str date_str) of
              Some ds \<Rightarrow> Some (int (int_of_digits ds))
            | None \<Rightarrow> None))"

section \<open>Text normalizer (\<open>OptimizedCareerScraper\<close>)\<close>

text \<open>The string starts with a match of \<open>\d{4}-\d{2}-\d{2}\<close>.\<close>

definition iso_prefix :: "string \<Rightarrow> bool" where
  "iso_prefix s =
     (length s \<ge> 10 \<and> list_all is_digit (take 4 s) \<and> s ! 4 = CHR ''-''
      \<and> list_all is_digit (take 2 (drop 5 s)) \<and> s ! 7 = CHR ''-''
      \<and> list_all is_digit (take 2 (drop 8 s)))"

text \<open>\<open>re.search(r'(\d{4}-\d{2}-\d{2})', s)\<close>\<close>

fun search_iso :: "string \<Rightarrow> string option" where
  "search_iso [] = None"
| "search_iso (c # cs) = (if iso_prefix (c # cs) then Some (take 10 (c # cs)) else search_iso cs)"

text \<open>\<open>re.findall(r'(\d{4}-\d{2}-\d{2})', s)\<close>: the matches from left to right, not overlapping.\<close>

function findall_iso :: "string \<Rightarrow> string list" where
  "findall_iso s =
     (if s = [] then []
      else if iso_prefix s then take 10 s # findall_iso (drop 10 s)
      else findall_iso (tl s))"
  by pat_completeness auto
termination
  by (relation "measure length") (auto simp: iso_prefix_def)

declare findall_iso.simps [simp del]

text \<open>\<open>_extract_start_date\<close>\<close>

definition extract_start_date :: "string \<Rightarrow> string" where
  "extract_start_date date_range = (case search_iso date_range of Some d \<Rightarrow> d | None \<Rightarrow> [])"

text \<open>\<open>_extract_end_date\<close>\<close>

definition extract_end_date :: "string \<Rightarrow> string" where
  "extract_end_date date_range =
     (if py_in ''Present'' date_range \<or> py_in ''present'' date_range then ''Present''
      else let matches = findall_iso date_range
           in if length matches > 1 then last matches else [])"

text \<open>
  The string is a match of \<open>\s*\([^)]+\)\s*\<close> up to its end (the pattern of
  \<open>_clean_team_name\<close> without its anchor).
\<close>

definition trailing_group :: "string \<Rightarrow> bool" where
  "trailing_group s =
     (case dropWhile is_space s of
        [] \<Rightarrow> False
      | c # r \<Rightarrow>
          c = CHR ''(''
          \<and> takeWhile (\<lambda>x. x \<noteq> CHR '')'') r \<noteq> []
          \<and> dropWhile (\<lambda>x. x \<noteq> CHR '')'') r \<noteq> []
          \<and> list_all is_space (tl (dropWhile (\<lambda>x. x \<noteq> CHR '')'') r)))"

text \<open>\<open>re.sub(r'\s*\([^)]+\)\s*$', '', s)\<close>: the leftmost match runs to the end and is removed.\<close>

fun sub_trailing_group :: "string \<Rightarrow> string" where
  "sub_trailing_group [] = []"
| "sub_trailing_group (c # cs) =
     (if trailing_group (c # cs) then [] else c # sub_trailing_group cs)"

text \<open>\<open>_clean_team_name\<close>\<close>

definition clean_team_name :: "string \<Rightarrow> string" where
  "clean_team_name team_text = strip (sub_trailing_group team_text)"

text \<open>\<open>re.search(r'\(([^)]+)\)', s)\<close>: the contents of the leftmost parenthesized group.\<close>

fun search_paren :: "string \<Rightarrow> string option" where
  "search_paren [] = None"
| "search_paren (c # cs) =
     (if c = CHR ''('' \<and> takeWhile (\<lambda>x. x \<noteq> CHR '')'') cs \<noteq> []
         \<and> dropWhile (\<lambda>x. x \<noteq> CHR '')'') cs \<noteq> []
      then Some (takeWhile (\<lambda>x. x \<noteq> CHR '')'') cs)
      else search_paren cs)"

text \<open>\<open>_extract_status\<close>\<close>

definition extract_status :: "string \<Rightarrow> string" where
  "extract_status team_text =
     (case search_paren team_text of
        Some g \<Rightarrow>
          (let status = lower (strip g) in
           if py_in ''inactive'' status then ''Inactive''
           else if py_in ''loan'' status then ''Loan''
           else if py_in ''stand-in'' status \<or> py_in ''standin'' status then ''Stand-in''
           else if py_in ''trial'' status then ''Trial''
           else title status)
      | None \<Rightarrow> ''Active'')"

text \<open>
  One row of a history table in \<open>_parse_history_table\<close>: kept only when the date cell has
  four consecutive digits, and then turned into a career entry.
\<close>

definition parse_history_row :: "string \<Rightarrow> string \<Rightarrow> (string \<times> jval) list option" where
  "parse_history_row date_text team_text =
     (if search_d4 date_text \<noteq> None then
        Some [(''date_start'', JStr (extract_start_date date_text)),
              (''date_end'', JStr (extract_end_date date_text)),
              (''date_range'', JStr date_text),
              (''team'', JStr (clean_team_name team_text)),
              (''status'', JStr (extract_status team_text))]
      else None)"


section \<open>Player rows and the merger\<close>

text \<open>
  One element of a parsed career history.  Iterating the parsed value yields the elements
  of a JSON array; an element that is not a JSON object has no \<open>get\<close> method.
\<close>

datatype entry = EObj "(string \<times> jval) list" | ENonObj

text \<open>
  The \<open>career_history\<close> cell after \<open>json.loads\<close>: the text is not JSON (\<open>JInvalid\<close>), it is
  a value that cannot be iterated (\<open>JNotIterable\<close>: a number, a boolean or \<open>null\<close>), or it
  is a sequence of elements.
\<close>

datatype career = JInvalid | JNotIterable | JSeq "entry list"

text \<open>
  A row of the players table.  \<open>p_career_history = None\<close> is a missing or empty cell;
  \<open>p_teams_count = None\<close> is a table without that column.
\<close>

record player =
  p_player_id :: string
  p_real_name :: string
  p_country :: string
  p_current_team :: "string option"
  p_status :: string
  p_career_history :: "career option"
  p_teams_count :: "nat option"
  p_roles :: string
  p_birth_date :: string
  p_player_url :: string

text \<open>
  Rows whose key was not seen before, in order of first appearance: the rows that
  \<open>drop_duplicates(subset=[key], keep='first')\<close> keeps, and the values that \<open>unique()\<close>
  returns.
\<close>

fun first_seen :: "('a \<Rightarrow> 'k) \<Rightarrow> 'k list \<Rightarrow> 'a list \<Rightarrow> 'a list" where
  "first_seen key seen [] = []"
| "first_seen key seen (x # xs) =
     (if key x \<in> set seen then first_seen key seen xs
      else x # first_seen key (key x # seen) xs)"

definition drop_duplicates :: "('a \<Rightarrow> 'k) \<Rightarrow> 'a list \<Rightarrow> 'a list" where
  "drop_duplicates key df = first_seen key [] df"

definition unique :: "'a list \<Rightarrow> 'a list" where
  "unique col = first_seen (\<lambda>x. x) [] col"

text \<open>
  \<open>merge_databases\<close>: \<open>pd.concat([main_df, supp_df])\<close> followed by
  \<open>drop_duplicates(subset=['player_id'], keep='first')\<close>.
\<close>

definition merge_databases :: "player list \<Rightarrow> player list \<Rightarrow> player list" where
  "merge_databases main_df supp_df = drop_duplicates p_player_id (main_df @ supp_df)"

section \<open>Stint builder (\<open>CareerHistoryDatabase.build_career_stints_table\<close>)\<close>

text \<open>A row of the career stints table, with the columns of the source.\<close>

record stint =
  stint_id :: nat
  player_id :: string
  real_name :: string
  country :: string
  current_team :: "string option"
  player_status :: string
  stint_number :: nat
  total_stints :: nat
  team :: jval
  date_start :: jval
  date_end :: jval
  date_range :: jval
  stint_status :: jval
  is_current_team :: bool
  duration_days :: int
  year_start :: "int option"
  year_end :: "int option"
  roles :: string
  player_url :: string

text \<open>\<open>d.get(k, default)\<close> on a parsed JSON object: the last binding of a repeated key wins.\<close>

definition dict_get :: "(string \<times> jval) list \<Rightarrow> string \<Rightarrow> jval \<Rightarrow> jval" where
  "dict_get d k dflt = (case map_of (rev d) k of Some v \<Rightarrow> v | None \<Rightarrow> dflt)"

text \<open>\<open>'present' in date_end.lower() if date_end else False\<close>\<close>

definition is_current_of :: "jval \<Rightarrow> error + bool" where
  "is_current_of d_end = (if truthy d_end then present_in_lower d_end else Inr False)"

text \<open>
  \<open>self._extract_year(date_end) if date_end and 'present' not in date_end.lower()
  else datetime.now().year\<close>
\<close>

definition year_end_of :: "date \<Rightarrow> jval \<Rightarrow> error + int option" where
  "year_end_of now d_end =
     (if truthy d_end then
        (case present_in_lower d_end of
           Inl e \<Rightarrow> Inl e
         | Inr p \<Rightarrow> if \<not> p then Inr (extract_year d_end) else Inr (Some (int (fst now))))
      else Inr (Some (int (fst now))))"

text \<open>
  The body of the loop over the entries of one career: the stint built from one entry, or
  the exception it raises.  An element that is not an object has no \<open>get\<close>.
\<close>

definition process_entry ::
  "date \<Rightarrow> player \<Rightarrow> nat \<Rightarrow> nat \<Rightarrow> nat \<Rightarrow> entry \<Rightarrow> error + stint" where
  "process_entry now p sid stint_num career_len en =
     (case en of
        ENonObj \<Rightarrow> Inl AttributeError
      | EObj d \<Rightarrow>
          (let d_start = dict_get d ''date_start'' (JStr []);
               d_end = dict_get d ''date_end'' (JStr []);
               d_range = dict_get d ''date_range'' (JStr []);
               dur = calculate_duration now d_start d_end
           in case is_current_of d_end of
                Inl e \<Rightarrow> Inl e
              | Inr is_current \<Rightarrow>
                  (case year_end_of now d_end of
                     Inl e \<Rightarrow> Inl e
                   | Inr y_end \<Rightarrow>
                       Inr \<lparr>stint_id = sid,
                            player_id = p_player_id p,
                            real_name = p_real_name p,
                            country = p_country p,
                            current_team = p_current_team p,
                            player_status = p_status p,
                            stint_number = stint_num,
                            total_stints =
                              (case p_teams_count p of Some n \<Rightarrow> n | None \<Rightarrow> career_len),
                            team = dict_get d ''team'' (JStr []),
                            date_start = d_start,
                            date_end = d_end,
                            date_range = d_range,
                            stint_status = dict_get d ''status'' (JStr ''Active''),
                            is_current_team = is_current,
                            duration_days = dur,
                            year_start = extract_year d_start,
                            year_end = y_end,
                            roles = p_roles p,
                            player_url = p_player_url p\<rparr>)))"

text \<open>
  \<open>for stint_num, entry in enumerate(career, 1)\<close>: the stints appended before the first
  exception, the next \<open>stint_id\<close>, and the exception that ended the loop, if any.
\<close>

fun career_loop ::
  "date \<Rightarrow> player \<Rightarrow> nat \<Rightarrow> nat \<Rightarrow> nat \<Rightarrow> entry list \<Rightarrow> stint list \<times> nat \<times> error option" where
  "career_loop now p career_len sid stint_num [] = ([], sid, None)"
| "career_loop now p career_len sid stint_num (en # es) =
     (case process_entry now p sid stint_num career_len en of
        Inl e \<Rightarrow> ([], sid, Some e)
      | Inr s \<Rightarrow>
          (case career_loop now p career_len (sid + 1) (stint_num + 1) es of
             (ss, sid', r) \<Rightarrow> (s # ss, sid', r)))"

text \<open>
  The \<open>try\<close> block of one player: \<open>json.loads\<close>, then the loop.  Whatever is raised inside
  is caught by \<open>except Exception\<close> after the stints appended so far.
\<close>

fun player_try :: "date \<Rightarrow> player \<Rightarrow> nat \<Rightarrow> career \<Rightarrow> stint list \<times> nat \<times> error option" where
  "player_try now p sid JInvalid = ([], sid, Some JSONDecodeError)"
| "player_try now p sid JNotIterable = ([], sid, Some TypeError)"
| "player_try now p sid (JSeq es) = career_loop now p (length es) sid 1 es"

text \<open>\<open>for _, player in self.players_df.iterrows()\<close>, with the \<open>stint_id\<close> counter.\<close>

fun players_loop :: "date \<Rightarrow> nat \<Rightarrow> player list \<Rightarrow> stint list" where
  "players_loop now sid [] = []"
| "players_loop now sid (p # ps) =
     (case p_career_history p of
        None \<Rightarrow> players_loop now sid ps
      | Some c \<Rightarrow>
          (case player_try now p sid c of
             (ss, sid', r) \<Rightarrow> ss @ players_loop now sid' ps))"

definition build_career_stints_table :: "date \<Rightarrow> player list \<Rightarrow> stint list" where
  "build_career_stints_table now players_df = players_loop now 1 players_df"

section \<open>Relational deriver\<close>

text \<open>
  A table made by \<open>pd.DataFrame(rows)\<close> from a list of dicts has the keys of the dicts as
  its columns; made from the empty list it has no column at all, and \<open>df[name]\<close> raises
  \<open>KeyError\<close>.
\<close>

definition column :: "string \<Rightarrow> ('r \<Rightarrow> 'v) \<Rightarrow> 'r list \<Rightarrow> error + 'v list" where
  "column name field df = (if df = [] then Inl (KeyError name) else Inr (map field df))"

record transition =
  t_transition_id :: nat
  t_player_id :: string
  t_real_name :: string
  t_country :: string
  t_from_team :: jval
  t_to_team :: jval
  t_from_stint_status :: jval
  t_to_stint_status :: jval
  t_transition_date :: jval
  t_transition_year :: "int option"
  t_from_duration_days :: int
  t_stint_number :: nat

text \<open>\<open>for i in range(len(player_stints) - 1)\<close>: one transition per adjacent pair.\<close>

fun pair_loop :: "nat \<Rightarrow> string \<Rightarrow> stint list \<Rightarrow> transition list" where
  "pair_loop tid pid (current_stint # next_stint # rest) =
     \<lparr>t_transition_id = tid,
      t_player_id = pid,
      t_real_name = real_name current_stint,
      t_country = country current_stint,
      t_from_team = team current_stint,
      t_to_team = team next_stint,
      t_from_stint_status = stint_status current_stint,
      t_to_stint_status = stint_status next_stint,
      t_transition_date = date_start next_stint,
      t_transition_year = year_start next_stint,
      t_from_duration_days = duration_days current_stint,
      t_stint_number = stint_number current_stint\<rparr>
     # pair_loop (tid + 1) pid (next_stint # rest)"
| "pair_loop tid pid _ = []"

text \<open>The stints of one player, \<open>df[df['player_id'] == pid].sort_values('stint_number')\<close>.\<close>

definition player_stints :: "stint list \<Rightarrow> string \<Rightarrow> stint list" where
  "player_stints df pid = sort_key stint_number (filter (\<lambda>s. player_id s = pid) df)"

fun transitions_loop :: "nat \<Rightarrow> stint list \<Rightarrow> string list \<Rightarrow> transition list" where
  "transitions_loop tid df [] = []"
| "transitions_loop tid df (pid # pids) =
     pair_loop tid pid (player_stints df pid)
     @ transitions_loop (tid + length (pair_loop tid pid (player_stints df pid))) df pids"

definition build_team_transitions_table :: "stint list \<Rightarrow> error + transition list" where
  "build_team_transitions_table career_stints_df =
     (case column ''player_id'' player_id career_stints_df of
        Inl e \<Rightarrow> Inl e
      | Inr ids \<Rightarrow> Inr (transitions_loop 1 career_stints_df (unique ids)))"


text \<open>
  A row of the player statistics table.  The three columns \<open>career_start_date\<close>,
  \<open>career_end_date\<close> (minimum and maximum of the date strings) and
  \<open>avg_stint_duration_days\<close> (a floating-point mean) are not part of the modelled row.
\<close>

record player_stats =
  ps_player_id :: string
  ps_real_name :: string
  ps_country :: string
  ps_current_team :: "string option"
  ps_player_status :: string
  ps_total_teams :: nat
  ps_unique_teams :: nat
  ps_teams_played_multiple_times :: int
  ps_career_start_year :: "int option"
  ps_career_end_year :: "int option"
  ps_career_span_years :: int
  ps_total_career_days :: int
  ps_is_active :: bool
  ps_has_current_team :: bool
  ps_inactive_stints :: nat
  ps_loan_stints :: nat
  ps_standin_stints :: nat
  ps_roles :: string
  ps_birth_date :: string
  ps_player_url :: string

text \<open>\<open>Series.min()\<close> and \<open>Series.max()\<close> skip missing values and are missing on none.\<close>

definition col_min :: "int option list \<Rightarrow> int option" where
  "col_min col = (case [y. Some y \<leftarrow> col] of [] \<Rightarrow> None | y # ys \<Rightarrow> Some (fold min ys y))"

definition col_max :: "int option list \<Rightarrow> int option" where
  "col_max col = (case [y. Some y \<leftarrow> col] of [] \<Rightarrow> None | y # ys \<Rightarrow> Some (fold max ys y))"

text \<open>\<open>year_end - year_start if year_end > year_start else 0\<close>; a missing year compares false.\<close>

fun career_years_of :: "int option \<Rightarrow> int option \<Rightarrow> int" where
  "career_years_of (Some ys) (Some ye) = (if ye > ys then ye - ys else 0)"
| "career_years_of _ _ = 0"

definition stats_row :: "player \<Rightarrow> string \<Rightarrow> stint list \<Rightarrow> player_stats" where
  "stats_row player_info pid sts =
     \<lparr>ps_player_id = pid,
      ps_real_name = p_real_name player_info,
      ps_country = p_country player_info,
      ps_current_team = p_current_team player_info,
      ps_player_status = p_status player_info,
      ps_total_teams = length sts,
      ps_unique_teams = length (remdups (filter (\<lambda>v. \<not> isna v) (map team sts))),
      ps_teams_played_multiple_times =
        int (length sts) - int (length (remdups (filter (\<lambda>v. \<not> isna v) (map team sts)))),
      ps_career_start_year = col_min (map year_start sts),
      ps_career_end_year = col_max (map year_end sts),
      ps_career_span_years =
        career_years_of (col_min (map year_start sts)) (col_max (map year_end sts)),
      ps_total_career_days = sum_list (map duration_days sts),
      ps_is_active = (p_status player_info = ''Active''),
      ps_has_current_team =
        (case p_current_team player_info of None \<Rightarrow> False | Some t \<Rightarrow> t \<noteq> []),
      ps_inactive_stints = length (filter (\<lambda>s. stint_status s = JStr ''Inactive'') sts),
      ps_loan_stints = length (filter (\<lambda>s. stint_status s = JStr ''Loan'') sts),
      ps_standin_stints = length (filter (\<lambda>s. stint_status s = JStr ''Stand-in'') sts),
      ps_roles = p_roles player_info,
      ps_birth_date = p_birth_date player_info,
      ps_player_url = p_player_url player_info\<rparr>"

text \<open>
  The loop of \<open>build_player_stats_table\<close>; \<open>.iloc[0]\<close> on a players table without the
  \<open>player_id\<close> raises \<open>IndexError\<close>.
\<close>

fun stats_loop :: "player list \<Rightarrow> stint list \<Rightarrow> string list \<Rightarrow> error + player_stats list" where
  "stats_loop players_df df [] = Inr []"
| "stats_loop players_df df (pid # pids) =
     (case filter (\<lambda>p. p_player_id p = pid) players_df of
        [] \<Rightarrow> Inl IndexError
      | player_info # _ \<Rightarrow>
          (case stats_loop players_df df pids of
             Inl e \<Rightarrow> Inl e
           | Inr rows \<Rightarrow>
               Inr (stats_row player_info pid (filter (\<lambda>s. player_id s = pid) df) # rows)))"

definition build_player_stats_table ::
  "player list \<Rightarrow> stint list \<Rightarrow> error + player_stats list" where
  "build_player_stats_table players_df career_stints_df =
     (case column ''player_id'' player_id career_stints_df of
        Inl e \<Rightarrow> Inl e
      | Inr ids \<Rightarrow> stats_loop players_df career_stints_df (unique ids))"

section \<open>Cleaner (\<open>DatabaseCleaner\<close>)\<close>

text \<open>
  \<open>clean_stints\<close> keeps the rows whose team is not noise.  The share of removed rows it
  prints, \<open>removed/original_count*100\<close>, divides by zero on an empty table.
\<close>

definition clean_stints :: "stint list \<Rightarrow> error + stint list" where
  "clean_stints stints_df =
     (if length stints_df = 0 then Inl ZeroDivisionError
      else Inr (filter (\<lambda>s. \<not> is_fake_team (team s)) stints_df))"

text \<open>\<open>clean_transitions\<close> keeps the rows whose two teams are both not noise.\<close>

definition clean_transitions :: "transition list \<Rightarrow> error + transition list" where
  "clean_transitions transitions_df =
     (if length transitions_df = 0 then Inl ZeroDivisionError
      else Inr (filter (\<lambda>t. \<not> is_fake_team (t_from_team t) \<and> \<not> is_fake_team (t_to_team t))
                  transitions_df))"

text \<open>
  The two cleaning steps of \<open>clean_database\<close> on the loaded tables; \<open>None\<close> is a
  transitions file that could not be read.
\<close>

definition clean_database ::
  "stint list \<Rightarrow> transition list option \<Rightarrow> error + stint list \<times> transition list option" where
  "clean_database stints_df transitions_df =
     (case clean_stints stints_df of
        Inl e \<Rightarrow> Inl e
      | Inr stints_clean \<Rightarrow>
          (case transitions_df of
             None \<Rightarrow> Inr (stints_clean, None)
           | Some tdf \<Rightarrow>
               (case clean_transitions tdf of
                  Inl e \<Rightarrow> Inl e
                | Inr transitions_clean \<Rightarrow> Inr (stints_clean, Some transitions_clean))))"


text \<open>A players-table row with the given identity and no career history.\<close>

definition sample_player :: "string \<Rightarrow> string \<Rightarrow> player" where
  "sample_player pid name =
     \<lparr>p_player_id = pid, p_real_name = name, p_country = ''Brazil'',
      p_current_team = None, p_status = ''Active'', p_career_history = None,
      p_teams_count = None, p_roles = [], p_birth_date = [], p_player_url = []\<rparr>"

text \<open>
  The entries on which the loop body raises nothing: JSON objects whose \<open>date_end\<close> is a
  string or a falsy value.  \<open>entry_team\<close> is the \<open>team\<close> field of such an entry.
\<close>

definition entry_ok :: "entry \<Rightarrow> bool" where
  "entry_ok en =
     (case en of
        ENonObj \<Rightarrow> False
      | EObj d \<Rightarrow> (case dict_get d ''date_end'' (JStr []) of JStr s \<Rightarrow> True | v \<Rightarrow> \<not> truthy v))"

fun entry_team :: "entry \<Rightarrow> jval" where
  "entry_team (EObj d) = dict_get d ''team'' (JStr [])"
| "entry_team ENonObj = JNull"

text \<open>The entries of a player that the stint builder turns into stints.\<close>

definition emitted :: "player \<Rightarrow> entry list" where
  "emitted p =
     (case p_career_history p of
        Some (JSeq es) \<Rightarrow> takeWhile entry_ok es
      | _ \<Rightarrow> [])"


text \<open>Sample data of the scenarios: a clock, career entries, and a player with a career.\<close>

definition sample_now :: date where
  "sample_now = (2026, 11, 4)"

definition sample_entry :: "string \<Rightarrow> string \<Rightarrow> string \<Rightarrow> entry" where
  "sample_entry d_start d_end team_name =
     EObj [(''date_start'', JStr d_start), (''date_end'', JStr d_end),
           (''date_range'', JStr (d_start @ '' - '' @ d_end)),
           (''team'', JStr team_name), (''status'', JStr ''Active'')]"

definition sample_career_player :: "string \<Rightarrow> entry list \<Rightarrow> player" where
  "sample_career_player pid es =
     (sample_player pid ''Ana'')\<lparr>p_career_history := Some (JSeq es)\<rparr>"


text \<open>The entries of the scenarios: two well-formed ones around one with a numeric end date.\<close>

definition entry_A :: entry where
  "entry_A = sample_entry ''2020-01-01'' ''2020-06-30'' ''Team A''"

definition entry_bad :: entry where
  "entry_bad = EObj [(''date_start'', JStr ''2020-07-01''), (''date_end'', JNum 2020),
                     (''team'', JStr ''Team B'')]"

definition entry_C :: entry where
  "entry_C = sample_entry ''2021-01-01'' ''Present'' ''Team C''"


text \<open>A noise entry, and the stints table of one player with the career A, S-Tier, C.\<close>

definition entry_S :: entry where
  "entry_S = sample_entry ''2020-07-01'' ''2020-12-31'' ''S-Tier''"

definition abc_stints :: "stint list" where
  "abc_stints =
     build_career_stints_table sample_now
       [sample_career_player ''p1'' [entry_A, entry_S, entry_C]]"

text \<open>Rows per player in the stints and in the transitions table.\<close>

definition stint_count :: "string \<Rightarrow> stint list \<Rightarrow> nat" where
  "stint_count pid df = length (filter (\<lambda>s. player_id s = pid) df)"

definition transition_count :: "string \<Rightarrow> transition list \<Rightarrow> nat" where
  "transition_count pid tdf = length (filter (\<lambda>t. t_player_id t = pid) tdf)"

text \<open>The number of neighbours in a list of stints whose two teams are both not noise.\<close>

fun real_pairs :: "stint list \<Rightarrow> nat" where
  "real_pairs (a # b # rest) =
     (if \<not> is_fake_team (team a) \<and> \<not> is_fake_team (team b) then 1 else 0)
     + real_pairs (b # rest)"
| "real_pairs _ = 0"

text \<open>The cleaner applied to the transitions that the deriver builds from a stints table.\<close>

definition built_then_cleaned :: "stint list \<Rightarrow> error + transition list" where
  "built_then_cleaned df =
     (case build_team_transitions_table df of
        Inl e \<Rightarrow> Inl e
      | Inr tdf \<Rightarrow> clean_transitions tdf)"




text \<open>Four consecutive digits start at position \<open>i\<close> of the string.\<close>

definition d4_at :: "string \<Rightarrow> nat \<Rightarrow> bool" where
  "d4_at s i = (i + 4 \<le> length s \<and> list_all is_digit (take 4 (drop i s)))"




section \<open>Properties of the noise classifier\<close>

text \<open>
  Claim C8.  The noise classifier is a function of its argument alone; on a string none of
  its steps (truthiness, \<open>str\<close>, \<open>strip\<close>, set membership, \<open>re.match\<close>) can raise, so the
  model has no error result.  At the four given points: \<open>"S-Tier"\<close> and \<open>"3rd - 4th"\<close> are
  noise, \<open>"Sentinels"\<close> is not, and the empty string is noise.
\<close>

theorem is_fake_team_points:
  "is_fake_team (JStr ''S-Tier'') = True
   \<and> is_fake_team (JStr ''3rd - 4th'') = True
   \<and> is_fake_team (JStr ''Sentinels'') = False
   \<and> is_fake_team (JStr []) = True"
  by code_simp

theorem is_fake_team_points_witness:
  "is_fake_team (JStr ''Sentinels'') = False"
  using is_fake_team_points by simp


section \<open>Properties of the merger\<close>

lemma first_seen_keys:
  "set (map key (first_seen key seen xs)) = set (map key xs) - set seen"
  by (induction xs arbitrary: seen) auto

lemma first_seen_distinct: "distinct (map key (first_seen key seen xs))"
proof (induction xs arbitrary: seen)
  case Nil
  show ?case by simp
next
  case (Cons x xs)
  have "key x \<notin> set (map key (first_seen key (key x # seen) xs))"
    unfolding first_seen_keys by simp
  then show ?case using Cons.IH by simp
qed

lemma first_seen_find:
  "find (\<lambda>p. key p = k) (first_seen key seen xs) =
     (if k \<in> set seen then None else find (\<lambda>p. key p = k) xs)"
  by (induction xs arbitrary: seen) auto

lemma first_seen_subseq: "subseq (first_seen key seen xs) xs"
  by (induction xs arbitrary: seen) auto

lemma first_seen_id:
  "distinct (map key xs) \<Longrightarrow> set (map key xs) \<inter> set seen = {} \<Longrightarrow>
   first_seen key seen xs = xs"
  by (induction xs arbitrary: seen) auto

lemma first_seen_all_seen:
  "set (map key xs) \<subseteq> set seen \<Longrightarrow> first_seen key seen xs = []"
  by (induction xs arbitrary: seen) auto

lemma first_seen_cong:
  assumes "set seen = set seen'"
  shows "first_seen key seen xs = first_seen key seen' xs"
  using assms
proof (induction xs arbitrary: seen seen')
  case Nil
  show ?case by simp
next
  case (Cons x xs)
  have "set (key x # seen) = set (key x # seen')"
    using Cons.prems by simp
  then have a: "first_seen key (key x # seen) xs = first_seen key (key x # seen') xs"
    by (rule Cons.IH)
  have b: "first_seen key seen xs = first_seen key seen' xs"
    using Cons.prems by (rule Cons.IH)
  have c: "key x \<in> set seen \<longleftrightarrow> key x \<in> set seen'"
    using Cons.prems by simp
  show ?case
    by (simp only: first_seen.simps a b c)
qed

lemma first_seen_append:
  "first_seen key seen (xs @ ys) =
     first_seen key seen xs @ first_seen key (map key xs @ seen) ys"
proof (induction xs arbitrary: seen)
  case Nil
  show ?case by simp
next
  case (Cons x xs)
  have c1: "key x \<in> set seen \<Longrightarrow>
      first_seen key (key x # map key xs @ seen) ys = first_seen key (map key xs @ seen) ys"
    by (rule first_seen_cong) auto
  have c2: "first_seen key (map key xs @ key x # seen) ys
      = first_seen key (key x # map key xs @ seen) ys"
    by (rule first_seen_cong) auto
  show ?case using Cons.IH c1 c2 by simp
qed

lemma find_append_self: "find P (xs @ xs) = find P xs"
proof -
  have "find P (xs @ ys) = (case find P xs of None \<Rightarrow> find P ys | Some x \<Rightarrow> Some x)" for ys
    by (induction xs) auto
  then show ?thesis by (simp split: option.splits)
qed

lemma drop_duplicates_self:
  assumes "distinct (map key xs)"
  shows "drop_duplicates key (xs @ xs) = xs"
proof -
  have "first_seen key [] xs = xs"
    using assms by (simp add: first_seen_id)
  moreover have "first_seen key (map key xs @ []) xs = []"
    by (rule first_seen_all_seen) simp
  ultimately show ?thesis
    by (simp add: drop_duplicates_def first_seen_append)
qed

text \<open>
  Claim C9.  The merger keeps one row per \<open>player_id\<close>, namely the first one in the
  concatenation of the two collections (so the first collection's row wins), in
  concatenation order.  Merging a collection with itself gives the same set of
  \<open>player_id\<close>s and the same row for each of them, and gives back the collection itself
  when its \<open>player_id\<close>s are unique.
\<close>

theorem merge_databases_first_seen_wins:
  "distinct (map p_player_id (merge_databases a b))
   \<and> set (map p_player_id (merge_databases a b)) = set (map p_player_id a) \<union> set (map p_player_id b)
   \<and> find (\<lambda>p. p_player_id p = k) (merge_databases a b) = find (\<lambda>p. p_player_id p = k) (a @ b)
   \<and> subseq (merge_databases a b) (a @ b)
   \<and> set (map p_player_id (merge_databases a a)) = set (map p_player_id a)
   \<and> find (\<lambda>p. p_player_id p = k) (merge_databases a a) = find (\<lambda>p. p_player_id p = k) a
   \<and> (distinct (map p_player_id a) \<longrightarrow> merge_databases a a = a)"
proof -
  let ?m = "\<lambda>x y. first_seen p_player_id [] (x @ y)"
  have d: "distinct (map p_player_id (?m a b))"
    by (rule first_seen_distinct)
  have k: "set (map p_player_id (?m x y)) = set (map p_player_id x) \<union> set (map p_player_id y)"
    for x y
    by (simp only: first_seen_keys) simp
  have f: "find (\<lambda>p. p_player_id p = k) (?m x y) = find (\<lambda>p. p_player_id p = k) (x @ y)"
    for x y
    by (simp only: first_seen_find) simp
  have s: "subseq (?m a b) (a @ b)"
    by (rule first_seen_subseq)
  have i: "distinct (map p_player_id a) \<longrightarrow> ?m a a = a"
    using drop_duplicates_self [of p_player_id a] by (simp add: drop_duplicates_def)
  have k2: "set (map p_player_id (?m a a)) = set (map p_player_id a)"
    by (simp only: k) simp
  have f2: "find (\<lambda>p. p_player_id p = k) (?m a a) = find (\<lambda>p. p_player_id p = k) a"
    by (simp only: f find_append_self)
  show ?thesis
    unfolding merge_databases_def drop_duplicates_def
    using d k [of a b] f [of a b] s i k2 f2 by blast
qed

theorem merge_databases_first_seen_wins_witness:
  "distinct (map p_player_id [sample_player ''p1'' ''Ana'', sample_player ''p2'' ''Bo''])
   \<and> merge_databases [sample_player ''p1'' ''Ana'', sample_player ''p2'' ''Bo'']
        [sample_player ''p1'' ''Ana'', sample_player ''p2'' ''Bo'']
      = [sample_player ''p1'' ''Ana'', sample_player ''p2'' ''Bo'']"
  using merge_databases_first_seen_wins
    [of "[sample_player ''p1'' ''Ana'', sample_player ''p2'' ''Bo'']"
        "[sample_player ''p1'' ''Ana'', sample_player ''p2'' ''Bo'']" "''p1''"]
  by (simp add: sample_player_def)

section \<open>Properties of the relational deriver on an empty stints table\<close>

lemma players_loop_no_history:
  "\<forall>p \<in> set ps. p_career_history p = None \<Longrightarrow> players_loop now sid ps = []"
  by (induction ps arbitrary: sid) auto

text \<open>
  Claim C10.  On a stints table without rows both derived builders raise \<open>KeyError\<close> on
  the \<open>player_id\<close> column instead of returning empty tables; the transitions builder
  raises in no other case.  The stint builder produces such a table, for instance, when no
  player has a career history.
\<close>

theorem empty_stints_raise_key_error:
  "build_team_transitions_table [] = Inl (KeyError ''player_id'')
   \<and> build_player_stats_table players_df [] = Inl (KeyError ''player_id'')
   \<and> ((\<exists>e. build_team_transitions_table df = Inl e) \<longleftrightarrow> df = [])
   \<and> ((\<forall>p \<in> set players_df. p_career_history p = None) \<longrightarrow>
        build_career_stints_table now players_df = []
        \<and> build_team_transitions_table (build_career_stints_table now players_df)
            = Inl (KeyError ''player_id'')
        \<and> build_player_stats_table players_df (build_career_stints_table now players_df)
            = Inl (KeyError ''player_id''))"
proof -
  have a: "build_team_transitions_table [] = Inl (KeyError ''player_id'')"
    by (simp add: build_team_transitions_table_def column_def)
  have b: "build_player_stats_table players_df [] = Inl (KeyError ''player_id'')"
    by (simp add: build_player_stats_table_def column_def)
  have c: "(\<exists>e. build_team_transitions_table df = Inl e) \<longleftrightarrow> df = []"
    by (simp add: build_team_transitions_table_def column_def)
  have d: "build_career_stints_table now players_df = []"
    if "\<forall>p \<in> set players_df. p_career_history p = None"
    using that by (simp add: build_career_stints_table_def players_loop_no_history)
  show ?thesis
    using a b c d by simp
qed

theorem empty_stints_raise_key_error_witness:
  "p_career_history (sample_player ''p1'' ''Ana'') = None
   \<and> build_team_transitions_table
        (build_career_stints_table sample_now [sample_player ''p1'' ''Ana''])
      = Inl (KeyError ''player_id'')"
  using empty_stints_raise_key_error [of "[sample_player ''p1'' ''Ana'']" "[]" sample_now]
  by (simp add: sample_player_def)


section \<open>Properties of the stint builder\<close>

lemma process_entry_ok_iff:
  "(\<exists>s. process_entry now p sid n len en = Inr s) \<longleftrightarrow> entry_ok en"
  by (cases en; cases "dict_get (case en of EObj d \<Rightarrow> d) ''date_end'' (JStr [])")
     (auto simp: process_entry_def entry_ok_def is_current_of_def year_end_of_def Let_def
           split: sum.splits)

lemma process_entry_fields:
  assumes "process_entry now p sid n len en = Inr s"
  shows "stint_id s = sid \<and> stint_number s = n \<and> player_id s = p_player_id p
         \<and> team s = entry_team en"
  using assms
  by (cases en) (auto simp: process_entry_def Let_def split: sum.splits)

lemma upt_add_Suc: "[a..<a + Suc k] = a # [a + 1..<a + 1 + k]"
proof -
  have "[a..<a + Suc k] = a # [Suc a..<a + Suc k]"
    by (rule upt_conv_Cons) simp
  then show ?thesis by simp
qed

lemma career_loop_char:
  assumes "career_loop now p len sid n es = (ss, sid', r)"
  shows "length ss = length (takeWhile entry_ok es)
         \<and> sid' = sid + length ss
         \<and> map stint_number ss = [n..<n + length ss]
         \<and> map stint_id ss = [sid..<sid + length ss]
         \<and> map team ss = map entry_team (takeWhile entry_ok es)
         \<and> (\<forall>s \<in> set ss. player_id s = p_player_id p)
         \<and> (r = None \<longleftrightarrow> list_all entry_ok es)"
  using assms
proof (induction es arbitrary: sid n ss sid' r)
  case Nil
  then show ?case by simp
next
  case (Cons en es)
  show ?case
  proof (cases "process_entry now p sid n len en")
    case (Inl e)
    then have "\<not> entry_ok en"
      using process_entry_ok_iff [of now p sid n len en] by simp
    with Inl Cons.prems show ?thesis by auto
  next
    case (Inr s)
    then have ok: "entry_ok en"
      using process_entry_ok_iff [of now p sid n len en] by auto
    obtain ss0 sid0 r0 where rec: "career_loop now p len (sid + 1) (n + 1) es = (ss0, sid0, r0)"
      by (metis prod_cases3)
    from Cons.prems Inr rec have eq: "ss = s # ss0" "sid' = sid0" "r = r0"
      by simp_all
    note ih = Cons.IH [OF rec]
    note f = process_entry_fields [OF Inr]
    have n1: "[n..<n + length ss] = n # [n + 1..<n + 1 + length ss0]"
      using eq upt_add_Suc [of n "length ss0"] by simp
    have s1: "[sid..<sid + length ss] = sid # [sid + 1..<sid + 1 + length ss0]"
      using eq upt_add_Suc [of sid "length ss0"] by simp
    show ?thesis
      unfolding n1 s1 using ih f ok eq by simp
  qed
qed

lemma player_try_char:
  assumes "player_try now p sid c = (ss, sid', r)" "p_career_history p = Some c"
  shows "length ss = length (emitted p)
         \<and> sid' = sid + length ss
         \<and> map stint_number ss = [1..<1 + length ss]
         \<and> map stint_id ss = [sid..<sid + length ss]
         \<and> map team ss = map entry_team (emitted p)
         \<and> map player_id ss = replicate (length ss) (p_player_id p)"
proof (cases c)
  case JInvalid
  with assms show ?thesis by (simp add: emitted_def)
next
  case JNotIterable
  with assms show ?thesis by (simp add: emitted_def)
next
  case (JSeq es)
  with assms have cl: "career_loop now p (length es) sid 1 es = (ss, sid', r)"
    by simp
  have em: "emitted p = takeWhile entry_ok es"
    using assms JSeq by (simp add: emitted_def)
  from career_loop_char [OF cl]
  have a: "length ss = length (takeWhile entry_ok es)"
    and b: "sid' = sid + length ss"
    and c: "map stint_number ss = [1..<1 + length ss]"
    and d: "map stint_id ss = [sid..<sid + length ss]"
    and e: "map team ss = map entry_team (takeWhile entry_ok es)"
    and f: "\<forall>s \<in> set ss. player_id s = p_player_id p"
    by blast+
  have "map player_id ss = map (\<lambda>_. p_player_id p) ss"
    using f by (intro map_cong) auto
  then have g: "map player_id ss = replicate (length ss) (p_player_id p)"
    by (simp only: map_replicate_const)
  show ?thesis
    unfolding em using a b c d e g by blast
qed

lemma players_loop_char:
  "map player_id (players_loop now sid ps)
     = concat (map (\<lambda>p. replicate (length (emitted p)) (p_player_id p)) ps)
   \<and> map stint_number (players_loop now sid ps)
     = concat (map (\<lambda>p. [1..<1 + length (emitted p)]) ps)
   \<and> map team (players_loop now sid ps) = concat (map (\<lambda>p. map entry_team (emitted p)) ps)
   \<and> map stint_id (players_loop now sid ps) = [sid..<sid + length (players_loop now sid ps)]"
proof (induction ps arbitrary: sid)
  case Nil
  show ?case by simp
next
  case (Cons p ps)
  show ?case
  proof (cases "p_career_history p")
    case None
    then have "emitted p = []"
      by (simp add: emitted_def)
    with None Cons.IH [of sid] show ?thesis by simp
  next
    case (Some c)
    obtain ss sid' r where pt: "player_try now p sid c = (ss, sid', r)"
      by (metis prod_cases3)
    from player_try_char [OF pt Some]
    have a: "length ss = length (emitted p)"
      and b: "sid' = sid + length ss"
      and c: "map stint_number ss = [1..<1 + length ss]"
      and d: "map stint_id ss = [sid..<sid + length ss]"
      and e: "map team ss = map entry_team (emitted p)"
      and f: "map player_id ss = replicate (length ss) (p_player_id p)"
      by blast+
    from Cons.IH [of sid']
    have i1: "map player_id (players_loop now sid' ps)
        = concat (map (\<lambda>p. replicate (length (emitted p)) (p_player_id p)) ps)"
      and i2: "map stint_number (players_loop now sid' ps)
        = concat (map (\<lambda>p. [1..<1 + length (emitted p)]) ps)"
      and i3: "map team (players_loop now sid' ps)
        = concat (map (\<lambda>p. map entry_team (emitted p)) ps)"
      and i4: "map stint_id (players_loop now sid' ps)
        = [sid'..<sid' + length (players_loop now sid' ps)]"
      by blast+
    have pl: "players_loop now sid (p # ps) = ss @ players_loop now sid' ps"
      using Some pt by simp
    have ids: "[sid..<sid + length (ss @ players_loop now sid' ps)]
        = [sid..<sid + length ss] @ [sid'..<sid' + length (players_loop now sid' ps)]"
    proof -
      have "[sid..<sid + length ss + length (players_loop now sid' ps)]
          = [sid..<sid + length ss]
            @ [sid + length ss..<sid + length ss + length (players_loop now sid' ps)]"
        by (rule upt_add_eq_append) simp
      then show ?thesis
        unfolding b by (simp only: length_append add.assoc)
    qed
    have g1: "map player_id (ss @ players_loop now sid' ps)
        = concat (map (\<lambda>p. replicate (length (emitted p)) (p_player_id p)) (p # ps))"
      by (simp only: map_append f i1 a list.map concat.simps)
    have g2: "map stint_number (ss @ players_loop now sid' ps)
        = concat (map (\<lambda>p. [1..<1 + length (emitted p)]) (p # ps))"
      by (simp only: map_append c i2 a list.map concat.simps)
    have g3: "map team (ss @ players_loop now sid' ps)
        = concat (map (\<lambda>p. map entry_team (emitted p)) (p # ps))"
      by (simp only: map_append e i3 list.map concat.simps)
    have g4: "map stint_id (ss @ players_loop now sid' ps)
        = [sid..<sid + length (ss @ players_loop now sid' ps)]"
      by (simp only: ids map_append d i4)
    show ?thesis
      unfolding pl using g1 g2 g3 g4 by blast
  qed
qed


lemma entry_ok_samples:
  "entry_ok entry_A" "\<not> entry_ok entry_bad" "entry_ok entry_C"
  by (simp_all add: entry_ok_def entry_A_def entry_bad_def entry_C_def sample_entry_def
        dict_get_def)

lemma entry_team_samples:
  "entry_team entry_A = JStr ''Team A''" "entry_team entry_C = JStr ''Team C''"
  by (simp_all add: entry_A_def entry_C_def sample_entry_def dict_get_def)

lemma emitted_samples:
  "emitted (sample_career_player pid [entry_A, entry_bad, entry_C]) = [entry_A]"
  "emitted (sample_career_player pid [entry_C]) = [entry_C]"
  by (simp_all add: emitted_def sample_career_player_def sample_player_def entry_ok_samples)

text \<open>
  Claim C3, as the code has it.  The \<open>try\<close> encloses the whole loop over one player's
  entries: an entry that raises ends that player's loop, the stints of the entries before
  it are kept and the entries after it are dropped.  The other players are processed as
  usual, with \<open>stint_number\<close> counting from 1 for each player and \<open>stint_id\<close> counting
  through, and the builder itself returns a table in every case.
\<close>

theorem stint_builder_stops_player_at_first_failure:
  "map player_id (build_career_stints_table now ps)
     = concat (map (\<lambda>p. replicate (length (emitted p)) (p_player_id p)) ps)
   \<and> map stint_number (build_career_stints_table now ps)
     = concat (map (\<lambda>p. [1..<1 + length (emitted p)]) ps)
   \<and> map team (build_career_stints_table now ps)
     = concat (map (\<lambda>p. map entry_team (emitted p)) ps)
   \<and> map stint_id (build_career_stints_table now ps)
     = [1..<1 + length (build_career_stints_table now ps)]
   \<and> ((\<exists>s. process_entry now p sid n len en = Inr s) \<longleftrightarrow> entry_ok en)"
  unfolding build_career_stints_table_def
  using players_loop_char [of now 1 ps] process_entry_ok_iff [of now p sid n len en]
  by blast

theorem stint_builder_stops_player_at_first_failure_witness:
  "map team (build_career_stints_table sample_now
      [sample_career_player ''p1'' [entry_A, entry_bad, entry_C],
       sample_career_player ''p2'' [entry_C]])
   = [JStr ''Team A'', JStr ''Team C'']"
proof -
  have "map team (build_career_stints_table sample_now
      [sample_career_player ''p1'' [entry_A, entry_bad, entry_C],
       sample_career_player ''p2'' [entry_C]])
     = concat (map (\<lambda>p. map entry_team (emitted p))
         [sample_career_player ''p1'' [entry_A, entry_bad, entry_C],
          sample_career_player ''p2'' [entry_C]])"
    using stint_builder_stops_player_at_first_failure
      [of sample_now "[sample_career_player ''p1'' [entry_A, entry_bad, entry_C],
         sample_career_player ''p2'' [entry_C]]"]
    by blast
  then show ?thesis
    by (simp add: emitted_samples entry_team_samples)
qed

theorem malformed_entry_skipped_locally_counterexample:
  "map team (build_career_stints_table sample_now
      [sample_career_player ''p1'' [entry_A, entry_bad, entry_C]])
   = [JStr ''Team A'']
   \<and> map entry_team (filter entry_ok [entry_A, entry_bad, entry_C])
   = [JStr ''Team A'', JStr ''Team C'']
   \<and> map team (build_career_stints_table sample_now
      [sample_career_player ''p1'' [entry_A, entry_bad, entry_C]])
   \<noteq> map entry_team (filter entry_ok [entry_A, entry_bad, entry_C])"
proof -
  have "map team (players_loop sample_now 1
      [sample_career_player ''p1'' [entry_A, entry_bad, entry_C]])
     = concat (map (\<lambda>p. map entry_team (emitted p))
         [sample_career_player ''p1'' [entry_A, entry_bad, entry_C]])"
    using players_loop_char
      [of sample_now 1 "[sample_career_player ''p1'' [entry_A, entry_bad, entry_C]]"]
    by blast
  then show ?thesis
    by (simp add: build_career_stints_table_def emitted_samples entry_team_samples
          entry_ok_samples)
qed


section \<open>Properties of the transitions table and of the cleaner\<close>

lemma pair_loop_length: "length (pair_loop tid pid L) = length L - 1"
  by (induction tid pid L rule: pair_loop.induct) simp_all

lemma pair_loop_player: "t \<in> set (pair_loop tid pid L) \<Longrightarrow> t_player_id t = pid"
  by (induction tid pid L rule: pair_loop.induct) auto

lemma pair_loop_real_pairs:
  "length (filter (\<lambda>t. \<not> is_fake_team (t_from_team t) \<and> \<not> is_fake_team (t_to_team t))
     (pair_loop tid pid L)) = real_pairs L"
  by (induction tid pid L rule: pair_loop.induct) simp_all

lemma real_pairs_le:
  "real_pairs L + (if \<exists>s \<in> set L. \<not> is_fake_team (team s) then 1 else 0)
     \<le> length (filter (\<lambda>s. \<not> is_fake_team (team s)) L)"
proof (induction L rule: real_pairs.induct)
  case (1 a b rest)
  then show ?case by (auto split: if_splits)
qed simp_all

lemma real_pairs_all_real:
  "\<forall>s \<in> set L. \<not> is_fake_team (team s) \<Longrightarrow> real_pairs L = length L - 1"
  by (induction L rule: real_pairs.induct) auto

lemma unique_set: "set (unique xs) = set xs"
  using first_seen_keys [of "\<lambda>x. x" "[]" xs] by (simp add: unique_def)

lemma unique_distinct: "distinct (unique xs)"
  using first_seen_distinct [of "\<lambda>x. x" "[]" xs] by (simp add: unique_def)

lemma filter_no_stints:
  assumes "pid \<notin> set (map player_id df)"
  shows "filter (\<lambda>s. player_id s = pid) df = []"
proof -
  have "\<forall>s \<in> set df. player_id s \<noteq> pid"
    using assms by auto
  then show ?thesis
    by (simp add: filter_empty_conv)
qed

lemma count_pair_loop:
  "length (filter (\<lambda>t. K t \<and> t_player_id t = pid) (pair_loop tid q L))
     = (if q = pid then length (filter K (pair_loop tid q L)) else 0)"
proof (cases "q = pid")
  case True
  have "filter (\<lambda>t. K t \<and> t_player_id t = pid) (pair_loop tid q L)
      = filter K (pair_loop tid q L)"
    using True by (intro filter_cong) (auto dest: pair_loop_player)
  with True show ?thesis by simp
next
  case False
  have "filter (\<lambda>t. K t \<and> t_player_id t = pid) (pair_loop tid q L) = []"
    using False by (auto simp: filter_empty_conv dest: pair_loop_player)
  with False show ?thesis by simp
qed

lemma transitions_loop_count_gen:
  assumes "distinct pids"
    and "\<And>tid q L. length (filter K (pair_loop tid q L)) = g L"
  shows "length (filter (\<lambda>t. K t \<and> t_player_id t = pid) (transitions_loop tid df pids))
     = (if pid \<in> set pids then g (player_stints df pid) else 0)"
  using assms(1)
proof (induction pids arbitrary: tid)
  case Nil
  show ?case by simp
next
  case (Cons q pids)
  let ?here = "pair_loop tid q (player_stints df q)"
  let ?rest = "transitions_loop (tid + length ?here) df pids"
  have ih: "length (filter (\<lambda>t. K t \<and> t_player_id t = pid) ?rest)
      = (if pid \<in> set pids then g (player_stints df pid) else 0)"
    using Cons.prems by (intro Cons.IH) simp
  have here: "length (filter (\<lambda>t. K t \<and> t_player_id t = pid) ?here)
      = (if q = pid then g (player_stints df q) else 0)"
    by (simp only: count_pair_loop assms(2))
  have "length (filter (\<lambda>t. K t \<and> t_player_id t = pid) (transitions_loop tid df (q # pids)))
      = length (filter (\<lambda>t. K t \<and> t_player_id t = pid) ?here)
        + length (filter (\<lambda>t. K t \<and> t_player_id t = pid) ?rest)"
    by (simp only: transitions_loop.simps filter_append length_append)
  also have "\<dots> = (if q = pid then g (player_stints df q) else 0)
      + (if pid \<in> set pids then g (player_stints df pid) else 0)"
    by (simp only: here ih)
  also have "\<dots> = (if pid \<in> set (q # pids) then g (player_stints df pid) else 0)"
    using Cons.prems by auto
  finally show ?case .
qed

lemma player_stints_length: "length (player_stints df pid) = stint_count pid df"
  by (simp add: player_stints_def stint_count_def)

lemma player_stints_real:
  "length (filter (\<lambda>s. \<not> is_fake_team (team s)) (player_stints df pid))
     = stint_count pid (filter (\<lambda>s. \<not> is_fake_team (team s)) df)"
proof -
  have "filter (\<lambda>s. \<not> is_fake_team (team s)) (player_stints df pid)
      = sort_key stint_number
          (filter (\<lambda>s. \<not> is_fake_team (team s)) (filter (\<lambda>s. player_id s = pid) df))"
    unfolding player_stints_def by (rule filter_sort)
  then have "length (filter (\<lambda>s. \<not> is_fake_team (team s)) (player_stints df pid))
      = length (filter (\<lambda>s. \<not> is_fake_team (team s)) (filter (\<lambda>s. player_id s = pid) df))"
    by simp
  also have "\<dots> = stint_count pid (filter (\<lambda>s. \<not> is_fake_team (team s)) df)"
    by (simp add: stint_count_def conj_commute)
  finally show ?thesis .
qed

lemma build_transitions_count:
  assumes "build_team_transitions_table df = Inr tdf"
  shows "transition_count pid tdf = stint_count pid df - 1"
proof -
  from assms have tdf: "tdf = transitions_loop 1 df (unique (map player_id df))"
    by (auto simp: build_team_transitions_table_def column_def split: if_splits)
  have "length (filter (\<lambda>t. True \<and> t_player_id t = pid)
        (transitions_loop 1 df (unique (map player_id df))))
      = (if pid \<in> set (unique (map player_id df))
         then length (player_stints df pid) - 1 else 0)"
    by (rule transitions_loop_count_gen [OF unique_distinct]) (simp add: pair_loop_length)
  then have c: "transition_count pid tdf
      = (if pid \<in> set (map player_id df) then stint_count pid df - 1 else 0)"
    by (simp add: tdf transition_count_def unique_set player_stints_length)
  show ?thesis
  proof (cases "pid \<in> set (map player_id df)")
    case True
    with c show ?thesis by simp
  next
    case False
    then have "stint_count pid df = 0"
      using filter_no_stints [of pid df] by (simp add: stint_count_def)
    with False c show ?thesis by simp
  qed
qed

lemma cleaned_transitions_count:
  assumes "build_team_transitions_table df = Inr tdf" "clean_transitions tdf = Inr tdf'"
  shows "transition_count pid tdf' = real_pairs (player_stints df pid)"
proof -
  let ?keep = "\<lambda>t. \<not> is_fake_team (t_from_team t) \<and> \<not> is_fake_team (t_to_team t)"
  from assms(1) have tdf: "tdf = transitions_loop 1 df (unique (map player_id df))"
    by (auto simp: build_team_transitions_table_def column_def split: if_splits)
  from assms(2) have tdf': "tdf' = filter ?keep tdf"
    by (auto simp: clean_transitions_def split: if_splits)
  have "length (filter (\<lambda>t. ?keep t \<and> t_player_id t = pid)
        (transitions_loop 1 df (unique (map player_id df))))
      = (if pid \<in> set (unique (map player_id df))
         then real_pairs (player_stints df pid) else 0)"
    by (rule transitions_loop_count_gen [OF unique_distinct]) (rule pair_loop_real_pairs)
  then have c: "transition_count pid tdf'
      = (if pid \<in> set (map player_id df) then real_pairs (player_stints df pid) else 0)"
    by (simp add: tdf tdf' transition_count_def unique_set)
  show ?thesis
  proof (cases "pid \<in> set (map player_id df)")
    case True
    with c show ?thesis by simp
  next
    case False
    then have "player_stints df pid = []"
      using filter_no_stints [of pid df] by (simp add: player_stints_def)
    with False c show ?thesis by simp
  qed
qed


lemma abc_fields:
  "map team abc_stints = [JStr ''Team A'', JStr ''S-Tier'', JStr ''Team C'']"
  "map stint_number abc_stints = [1, 2, 3]"
  "map player_id abc_stints = [''p1'', ''p1'', ''p1'']"
proof -
  have ok: "entry_ok entry_S"
    by (simp add: entry_ok_def entry_S_def sample_entry_def dict_get_def)
  have em: "emitted (sample_career_player ''p1'' [entry_A, entry_S, entry_C])
      = [entry_A, entry_S, entry_C]"
    by (simp add: emitted_def sample_career_player_def sample_player_def entry_ok_samples ok)
  have pid: "p_player_id (sample_career_player ''p1'' [entry_A, entry_S, entry_C]) = ''p1''"
    by (simp add: sample_career_player_def sample_player_def)
  have tS: "entry_team entry_S = JStr ''S-Tier''"
    by (simp add: entry_S_def sample_entry_def dict_get_def)
  note ch = players_loop_char
    [of sample_now 1 "[sample_career_player ''p1'' [entry_A, entry_S, entry_C]]"]
  show "map team abc_stints = [JStr ''Team A'', JStr ''S-Tier'', JStr ''Team C'']"
    using ch by (simp add: abc_stints_def build_career_stints_table_def em entry_team_samples tS)
  show "map stint_number abc_stints = [1, 2, 3]"
    using ch by (simp add: abc_stints_def build_career_stints_table_def em upt_conv_Cons)
  show "map player_id abc_stints = [''p1'', ''p1'', ''p1'']"
    using ch
    by (simp add: abc_stints_def build_career_stints_table_def em pid numeral_3_eq_3)
qed

lemma noise_samples:
  "is_fake_team (JStr ''Team A'') = False" "is_fake_team (JStr ''S-Tier'') = True"
  "is_fake_team (JStr ''Team C'') = False"
  by code_simp+

lemma abc_rows:
  obtains a b c where "abc_stints = [a, b, c]"
    and "team a = JStr ''Team A''" "team b = JStr ''S-Tier''" "team c = JStr ''Team C''"
    and "stint_number a = 1" "stint_number b = 2" "stint_number c = 3"
    and "player_id a = ''p1''" "player_id b = ''p1''" "player_id c = ''p1''"
proof -
  have "length abc_stints = 3"
    using arg_cong [OF abc_fields(1), of length] by simp
  then obtain a b c where abc: "abc_stints = [a, b, c]"
    by (auto simp: length_Suc_conv numeral_3_eq_3)
  show thesis
    using abc_fields that [OF abc] unfolding abc by simp
qed

lemma abc_transitions:
  "build_team_transitions_table abc_stints = Inr (pair_loop 1 ''p1'' abc_stints)"
  "clean_transitions (pair_loop 1 ''p1'' abc_stints) = Inr []"
  "player_stints abc_stints ''p1'' = abc_stints"
proof -
  obtain a b c where abc: "abc_stints = [a, b, c]"
    and t: "team a = JStr ''Team A''" "team b = JStr ''S-Tier''" "team c = JStr ''Team C''"
    and n: "stint_number a = 1" "stint_number b = 2" "stint_number c = 3"
    and p: "player_id a = ''p1''" "player_id b = ''p1''" "player_id c = ''p1''"
    by (rule abc_rows)
  show ps: "player_stints abc_stints ''p1'' = abc_stints"
    unfolding abc by (simp add: player_stints_def n p)
  have u: "unique (map player_id abc_stints) = [''p1'']"
    unfolding abc by (simp add: unique_def p)
  have ne: "abc_stints \<noteq> []"
    unfolding abc by simp
  have "build_team_transitions_table abc_stints
      = Inr (transitions_loop 1 abc_stints (unique (map player_id abc_stints)))"
    using ne by (simp add: build_team_transitions_table_def column_def)
  also have "transitions_loop 1 abc_stints (unique (map player_id abc_stints))
      = pair_loop 1 ''p1'' abc_stints"
    unfolding u by (simp add: ps)
  finally show "build_team_transitions_table abc_stints = Inr (pair_loop 1 ''p1'' abc_stints)" .
  show "clean_transitions (pair_loop 1 ''p1'' abc_stints) = Inr []"
    unfolding abc by (simp add: clean_transitions_def t noise_samples)
qed

lemma abc_cleaned:
  "map_sum id (map stint_number) (clean_stints abc_stints) = Inr [1, 3]"
  "map_sum id (map team) (clean_stints abc_stints) = Inr [JStr ''Team A'', JStr ''Team C'']"
  "map_sum id (stint_count ''p1'') (clean_stints abc_stints) = Inr 2"
proof -
  obtain a b c where abc: "abc_stints = [a, b, c]"
    and t: "team a = JStr ''Team A''" "team b = JStr ''S-Tier''" "team c = JStr ''Team C''"
    and n: "stint_number a = 1" "stint_number b = 2" "stint_number c = 3"
    and p: "player_id a = ''p1''" "player_id b = ''p1''" "player_id c = ''p1''"
    by (rule abc_rows)
  have cl: "clean_stints abc_stints = Inr [a, c]"
    unfolding abc by (simp add: clean_stints_def t noise_samples)
  show "map_sum id (map stint_number) (clean_stints abc_stints) = Inr [1, 3]"
    by (simp add: cl n)
  show "map_sum id (map team) (clean_stints abc_stints)
      = Inr [JStr ''Team A'', JStr ''Team C'']"
    by (simp add: cl t)
  show "map_sum id (stint_count ''p1'') (clean_stints abc_stints) = Inr 2"
    by (simp add: cl stint_count_def p)
qed

text \<open>
  Claim C1, as the code has it.  After the initial build every player has
  \<open>max(0, stint count - 1)\<close> transitions (the build itself needs a stints table with at
  least one row).  The cleaner does not rebuild the transitions from the filtered stints:
  it keeps the built transitions whose two teams are both not noise.  So after cleaning a
  player has as many transitions as there are neighbours, in the player's original stints
  in \<open>stint_number\<close> order, that are both not noise; this is at most
  \<open>max(0, filtered stint count - 1)\<close>, with equality when none of the player's stints is
  noise.
\<close>

theorem transition_count_after_build_and_clean:
  "(build_team_transitions_table df = Inr tdf \<longrightarrow>
      int (transition_count pid tdf) = max 0 (int (stint_count pid df) - 1))
   \<and> (df \<noteq> [] \<longrightarrow> (\<exists>built. build_team_transitions_table df = Inr built))
   \<and> (build_team_transitions_table df = Inr tdf \<and> clean_transitions tdf = Inr tdf'
        \<and> clean_stints df = Inr df' \<longrightarrow>
      transition_count pid tdf' = real_pairs (player_stints df pid)
      \<and> int (transition_count pid tdf') \<le> max 0 (int (stint_count pid df') - 1)
      \<and> ((\<forall>s \<in> set df. player_id s = pid \<longrightarrow> \<not> is_fake_team (team s)) \<longrightarrow>
           int (transition_count pid tdf') = max 0 (int (stint_count pid df') - 1)))"
proof -
  let ?real = "\<lambda>s. \<not> is_fake_team (team s)"
  have a: "int (transition_count pid tdf) = max 0 (int (stint_count pid df) - 1)"
    if "build_team_transitions_table df = Inr tdf"
    using build_transitions_count [OF that, of pid] by simp
  have b: "\<exists>built. build_team_transitions_table df = Inr built" if "df \<noteq> []"
    using that by (simp add: build_team_transitions_table_def column_def)
  have c: "transition_count pid tdf' = real_pairs (player_stints df pid)
      \<and> int (transition_count pid tdf') \<le> max 0 (int (stint_count pid df') - 1)
      \<and> ((\<forall>s \<in> set df. player_id s = pid \<longrightarrow> ?real s) \<longrightarrow>
           int (transition_count pid tdf') = max 0 (int (stint_count pid df') - 1))"
    if h: "build_team_transitions_table df = Inr tdf" "clean_transitions tdf = Inr tdf'"
      "clean_stints df = Inr df'"
  proof -
    have df': "df' = filter ?real df"
      using h(3) by (auto simp: clean_stints_def split: if_splits)
    have c1: "transition_count pid tdf' = real_pairs (player_stints df pid)"
      by (rule cleaned_transitions_count [OF h(1) h(2)])
    have k: "length (filter ?real (player_stints df pid)) = stint_count pid df'"
      unfolding df' by (rule player_stints_real)
    have c2: "real_pairs (player_stints df pid) \<le> stint_count pid df' - 1"
    proof (cases "\<exists>s \<in> set (player_stints df pid). ?real s")
      case True
      then have "real_pairs (player_stints df pid) + 1 \<le> stint_count pid df'"
        using real_pairs_le [of "player_stints df pid"] unfolding k by simp
      then show ?thesis by simp
    next
      case False
      then have "filter ?real (player_stints df pid) = []"
        by (simp add: filter_empty_conv)
      then have "stint_count pid df' = 0"
        using k by simp
      moreover have "real_pairs (player_stints df pid) \<le> stint_count pid df'"
        using False real_pairs_le [of "player_stints df pid"] unfolding k by simp
      ultimately show ?thesis by simp
    qed
    have c3: "real_pairs (player_stints df pid) = stint_count pid df' - 1"
      if all: "\<forall>s \<in> set df. player_id s = pid \<longrightarrow> ?real s"
    proof -
      have r: "\<forall>s \<in> set (player_stints df pid). ?real s"
        using all by (simp add: player_stints_def)
      then have "filter ?real (player_stints df pid) = player_stints df pid"
        by (intro filter_True) simp
      then have "length (player_stints df pid) = stint_count pid df'"
        using k by simp
      then show ?thesis
        using real_pairs_all_real [OF r] by simp
    qed
    show ?thesis
      using c1 c2 c3 by auto
  qed
  show ?thesis
    using a b c by blast
qed

theorem transition_count_after_build_and_clean_witness:
  "build_team_transitions_table abc_stints = Inr (pair_loop 1 ''p1'' abc_stints)
   \<and> clean_transitions (pair_loop 1 ''p1'' abc_stints) = Inr []
   \<and> real_pairs (player_stints abc_stints ''p1'') = 0"
proof -
  have "clean_stints abc_stints = Inr (filter (\<lambda>s. \<not> is_fake_team (team s)) abc_stints)"
    using abc_fields(1) by (auto simp: clean_stints_def)
  then have "transition_count ''p1'' [] = real_pairs (player_stints abc_stints ''p1'')"
    using transition_count_after_build_and_clean
      [of abc_stints "pair_loop 1 ''p1'' abc_stints" "''p1''" "[]"
          "filter (\<lambda>s. \<not> is_fake_team (team s)) abc_stints"]
      abc_transitions(1,2)
    by blast
  then have "real_pairs (player_stints abc_stints ''p1'') = 0"
    by (simp add: transition_count_def)
  then show ?thesis
    using abc_transitions(1,2) by blast
qed

theorem transition_count_after_clean_counterexample:
  "map_sum id (\<lambda>tdf. int (transition_count ''p1'' tdf)) (built_then_cleaned abc_stints) = Inr 0
   \<and> map_sum id (\<lambda>df. max 0 (int (stint_count ''p1'' df) - 1)) (clean_stints abc_stints)
     = Inr 1
   \<and> map_sum id (\<lambda>tdf. int (transition_count ''p1'' tdf)) (built_then_cleaned abc_stints)
     \<noteq> map_sum id (\<lambda>df. max 0 (int (stint_count ''p1'' df) - 1)) (clean_stints abc_stints)"
proof -
  have t: "built_then_cleaned abc_stints = Inr []"
    by (simp only: built_then_cleaned_def abc_transitions sum.case)
  obtain df' where s: "clean_stints abc_stints = Inr df'" and n: "stint_count ''p1'' df' = 2"
    using abc_cleaned(3) by (cases "clean_stints abc_stints") auto
  show ?thesis
    by (simp add: t s n transition_count_def)
qed

text \<open>
  Claim C2, as the code has it.  The cleaner keeps exactly the rows whose team is not
  noise, in their order and unchanged, so every surviving stint carries the
  \<open>stint_number\<close> it had before: no re-sequencing takes place.  (On a table without rows
  the cleaner raises \<open>ZeroDivisionError\<close>.)
\<close>

theorem clean_stints_keeps_stint_numbers:
  "(clean_stints df = Inr df' \<longrightarrow>
      subseq df' df
      \<and> set df' = {s \<in> set df. \<not> is_fake_team (team s)}
      \<and> map stint_number df' = map stint_number (filter (\<lambda>s. \<not> is_fake_team (team s)) df))
   \<and> ((\<exists>e. clean_stints df = Inl e) \<longleftrightarrow> df = [])"
  by (auto simp: clean_stints_def split: if_splits)

theorem clean_stints_keeps_stint_numbers_witness:
  "clean_stints abc_stints = Inr (filter (\<lambda>s. \<not> is_fake_team (team s)) abc_stints)
   \<and> subseq (filter (\<lambda>s. \<not> is_fake_team (team s)) abc_stints) abc_stints
   \<and> map stint_number (filter (\<lambda>s. \<not> is_fake_team (team s)) abc_stints) = [1, 3]"
proof -
  have c: "clean_stints abc_stints = Inr (filter (\<lambda>s. \<not> is_fake_team (team s)) abc_stints)"
    using abc_fields(1) by (auto simp: clean_stints_def)
  have "subseq (filter (\<lambda>s. \<not> is_fake_team (team s)) abc_stints) abc_stints"
    using clean_stints_keeps_stint_numbers
      [of abc_stints "filter (\<lambda>s. \<not> is_fake_team (team s)) abc_stints"] c
    by blast
  then show ?thesis
    using c abc_cleaned(1) by simp
qed

theorem clean_stints_resequence_counterexample:
  "map_sum id (map team) (clean_stints abc_stints) = Inr [JStr ''Team A'', JStr ''Team C'']
   \<and> map_sum id (map stint_number) (clean_stints abc_stints) = Inr [1, 3]
   \<and> map_sum id (map stint_number) (clean_stints abc_stints) \<noteq> Inr [1, 2]"
  by (simp add: abc_cleaned)

section \<open>Properties of the duration\<close>







text \<open>
  \<open>toordinal\<close> numbers the days of the calendar one after the other: the next day in a
  month, the first day of the next month and the first day of the next year each have the
  next number, so a difference of ordinals is a number of whole days.
\<close>

lemma days_before_month_Suc:
  "1 \<le> m \<Longrightarrow> days_before_month y (Suc m) = days_before_month y m + days_in_month y m"
  by (simp add: days_before_month_def)

lemma days_before_month_12: "days_before_month y 12 = (if is_leap y then 335 else 334)"
  by (simp add: days_before_month_def days_in_month_def upt_conv_Cons)

lemma days_before_year_Suc:
  "days_before_year (Suc (Suc k))
     = days_before_year (Suc k) + (if is_leap (Suc k) then 366 else 365)"
proof -
  define A B C where "A = k div 4" and "B = k div 100" and "C = k div 400"
  define a b c where "a = (Suc k mod 4 = 0)" and "b = (Suc k mod 100 = 0)"
    and "c = (Suc k mod 400 = 0)"
  have d4: "Suc k div 4 = (if a then Suc A else A)"
    unfolding A_def a_def by (rule div_Suc)
  have d100: "Suc k div 100 = (if b then Suc B else B)"
    unfolding B_def b_def by (rule div_Suc)
  have d400: "Suc k div 400 = (if c then Suc C else C)"
    unfolding C_def c_def by (rule div_Suc)
  have i1: "b \<Longrightarrow> a"
    unfolding a_def b_def by presburger
  have i2: "c \<Longrightarrow> b"
    unfolding b_def c_def by presburger
  have le: "B \<le> A"
    unfolding A_def B_def by (rule div_le_mono2) simp_all
  have e1: "days_before_year (Suc k) = k * 365 + A - B + C"
    unfolding days_before_year_def A_def B_def C_def by simp
  have e2: "days_before_year (Suc (Suc k))
      = Suc k * 365 + (if a then Suc A else A) - (if b then Suc B else B)
        + (if c then Suc C else C)"
    unfolding days_before_year_def diff_Suc_1 d4 d100 d400 ..
  have l: "is_leap (Suc k) = (a \<and> (\<not> b \<or> c))"
    unfolding is_leap_def a_def b_def c_def ..
  show ?thesis
    unfolding e1 e2 l using i1 i2 le by (cases a; cases b; cases c) simp_all
qed

lemma toordinal_successor:
  "toordinal (y, m, Suc d) = toordinal (y, m, d) + 1"
  "1 \<le> m \<Longrightarrow> toordinal (y, Suc m, 1) = toordinal (y, m, days_in_month y m) + 1"
  "toordinal (Suc (Suc k), 1, 1) = toordinal (Suc k, 12, 31) + 1"
proof -
  show "toordinal (y, m, Suc d) = toordinal (y, m, d) + 1"
    by (simp add: toordinal.simps)
  show "toordinal (y, Suc m, 1) = toordinal (y, m, days_in_month y m) + 1" if "1 \<le> m"
    using days_before_month_Suc [OF that, of y] by (simp add: toordinal.simps)
  have "days_before_month (Suc (Suc k)) 1 = 0"
    by (simp add: days_before_month_def)
  then show "toordinal (Suc (Suc k), 1, 1) = toordinal (Suc k, 12, 31) + 1"
    using days_before_year_Suc [of k]
    by (simp add: toordinal.simps days_before_month_12)
qed

















section \<open>Properties of the year bounds\<close>

lemma d4_at_simps:
  "d4_at [] i = False"
  "d4_at (c # cs) 0 = (4 \<le> length (c # cs) \<and> list_all is_digit (take 4 (c # cs)))"
  "d4_at (c # cs) (Suc i) = d4_at cs i"
  by (simp_all add: d4_at_def add.commute)

lemma search_d4_Cons:
  "search_d4 (c # cs) = (if d4_at (c # cs) 0 then Some (take 4 (c # cs)) else search_d4 cs)"
  by (simp only: search_d4.simps d4_at_simps(2))

lemma search_d4_None: "search_d4 s = None \<longleftrightarrow> (\<forall>i. \<not> d4_at s i)"
proof (induction s)
  case Nil
  show ?case by (simp add: d4_at_simps)
next
  case (Cons c cs)
  show ?case
  proof (cases "d4_at (c # cs) 0")
    case True
    then have "search_d4 (c # cs) \<noteq> None"
      by (simp only: search_d4_Cons if_True) simp
    with True show ?thesis by blast
  next
    case False
    then have "search_d4 (c # cs) = search_d4 cs"
      by (simp only: search_d4_Cons if_False)
    moreover have "(\<forall>i. \<not> d4_at (c # cs) i) \<longleftrightarrow> (\<forall>i. \<not> d4_at cs i)"
    proof
      assume a: "\<forall>i. \<not> d4_at (c # cs) i"
      show "\<forall>i. \<not> d4_at cs i"
      proof
        fix i
        from a have "\<not> d4_at (c # cs) (Suc i)" by blast
        then show "\<not> d4_at cs i" by (simp add: d4_at_simps(3))
      qed
    next
      assume a: "\<forall>i. \<not> d4_at cs i"
      show "\<forall>i. \<not> d4_at (c # cs) i"
      proof
        fix i
        show "\<not> d4_at (c # cs) i"
        proof (cases i)
          case 0
          with False show ?thesis by simp
        next
          case (Suc k)
          with a show ?thesis by (simp add: d4_at_simps(3))
        qed
      qed
    qed
    ultimately show ?thesis
      using Cons.IH by simp
  qed
qed

lemma search_d4_first:
  "search_d4 s = Some ds \<longleftrightarrow>
     (\<exists>i. d4_at s i \<and> (\<forall>j<i. \<not> d4_at s j) \<and> ds = take 4 (drop i s))"
proof (induction s)
  case Nil
  show ?case by (simp add: d4_at_simps)
next
  case (Cons c cs)
  show ?case
  proof (cases "d4_at (c # cs) 0")
    case True
    then have s: "search_d4 (c # cs) = Some (take 4 (c # cs))"
      by (simp only: search_d4_Cons if_True)
    show ?thesis
    proof
      assume "search_d4 (c # cs) = Some ds"
      then have "ds = take 4 (drop 0 (c # cs))"
        using s by simp
      with True show "\<exists>i. d4_at (c # cs) i \<and> (\<forall>j<i. \<not> d4_at (c # cs) j)
          \<and> ds = take 4 (drop i (c # cs))"
        by blast
    next
      assume "\<exists>i. d4_at (c # cs) i \<and> (\<forall>j<i. \<not> d4_at (c # cs) j)
          \<and> ds = take 4 (drop i (c # cs))"
      then obtain i where i: "\<forall>j<i. \<not> d4_at (c # cs) j" "ds = take 4 (drop i (c # cs))"
        by blast
      have "i = 0"
      proof (rule ccontr)
        assume "i \<noteq> 0"
        then have "0 < i" by simp
        with i(1) True show False by blast
      qed
      with i(2) s show "search_d4 (c # cs) = Some ds"
        by simp
    qed
  next
    case False
    then have s: "search_d4 (c # cs) = search_d4 cs"
      by (simp only: search_d4_Cons if_False)
    show ?thesis
    proof
      assume "search_d4 (c # cs) = Some ds"
      then have "search_d4 cs = Some ds"
        using s by simp
      then obtain i where i: "d4_at cs i" "\<forall>j<i. \<not> d4_at cs j" "ds = take 4 (drop i cs)"
        using Cons.IH by blast
      have "\<forall>j<Suc i. \<not> d4_at (c # cs) j"
      proof (intro allI impI)
        fix j
        assume "j < Suc i"
        then show "\<not> d4_at (c # cs) j"
          using False i(2) by (cases j) (simp_all add: d4_at_simps)
      qed
      moreover have "d4_at (c # cs) (Suc i)"
        using i(1) by (simp add: d4_at_simps(3))
      moreover have "ds = take 4 (drop (Suc i) (c # cs))"
        using i(3) by simp
      ultimately show "\<exists>i. d4_at (c # cs) i \<and> (\<forall>j<i. \<not> d4_at (c # cs) j)
          \<and> ds = take 4 (drop i (c # cs))"
        by blast
    next
      assume "\<exists>i. d4_at (c # cs) i \<and> (\<forall>j<i. \<not> d4_at (c # cs) j)
          \<and> ds = take 4 (drop i (c # cs))"
      then obtain i where i: "d4_at (c # cs) i" "\<forall>j<i. \<not> d4_at (c # cs) j"
          "ds = take 4 (drop i (c # cs))"
        by blast
      from i(1) False obtain k where k: "i = Suc k"
        by (cases i) auto
      have "d4_at cs k"
        using i(1) unfolding k by (simp add: d4_at_simps(3))
      moreover have "\<forall>j<k. \<not> d4_at cs j"
      proof (intro allI impI)
        fix j
        assume "j < k"
        then have "\<not> d4_at (c # cs) (Suc j)"
          using i(2) k by simp
        then show "\<not> d4_at cs j"
          by (simp add: d4_at_simps(3))
      qed
      moreover have "ds = take 4 (drop k cs)"
        using i(3) k by simp
      ultimately have "search_d4 cs = Some ds"
        using Cons.IH by blast
      then show "search_d4 (c # cs) = Some ds"
        using s by simp
    qed
  qed
qed

lemma process_entry_years:
  assumes "process_entry now p sid n len (EObj d) = Inr s"
  shows "year_start s = extract_year (dict_get d ''date_start'' (JStr []))"
    and "year_end s =
      (if truthy (dict_get d ''date_end'' (JStr []))
          \<and> present_in_lower (dict_get d ''date_end'' (JStr [])) = Inr False
       then extract_year (dict_get d ''date_end'' (JStr []))
       else Some (int (fst now)))"
  using assms
  by (auto simp: process_entry_def Let_def is_current_of_def year_end_of_def
        split: sum.splits if_splits)

lemma extract_year_str:
  "extract_year (JStr t) = map_option (\<lambda>ds. int (int_of_digits ds)) (search_d4 t)"
  by (cases t) (simp_all add: extract_year_def split: option.splits)

lemma year_samples:
  "extract_year (JStr ''2020-06-30'') = Some 2020"
  "extract_year (JStr []) = None"
  "present_in_lower (JStr ''2020-06-30'') = Inr False"
  by (simp_all add: extract_year_def is_digit_def int_of_digits_def digit_val_def lower_def
        is_upper_def)

text \<open>
  Claim C4, as the code has it.  \<open>year_start\<close> and \<open>year_end\<close> are the number written by
  the first run of four digits of the respective bound (no year when there is none).
  The current year replaces the extracted \<open>year_end\<close> when \<open>date_end\<close> is missing or empty
  and when it contains \<open>present\<close> in any letter case, so in particular when it is
  \<open>"Present"\<close>; for every other \<open>date_end\<close> the extracted year, or no year, is used.
\<close>

theorem year_bounds_of_stint:
  "(process_entry now p sid n len (EObj d) = Inr s \<longrightarrow>
      year_start s = extract_year (dict_get d ''date_start'' (JStr []))
      \<and> year_end s =
          (if truthy (dict_get d ''date_end'' (JStr []))
              \<and> present_in_lower (dict_get d ''date_end'' (JStr [])) = Inr False
           then extract_year (dict_get d ''date_end'' (JStr []))
           else Some (int (fst now))))
   \<and> (extract_year (JStr t) = Some y \<longleftrightarrow>
        (\<exists>i. d4_at t i \<and> (\<forall>j<i. \<not> d4_at t j)
           \<and> y = int (int_of_digits (take 4 (drop i t)))))
   \<and> (extract_year (JStr t) = None \<longleftrightarrow> (\<forall>i. \<not> d4_at t i))"
proof -
  have a: "year_start s = extract_year (dict_get d ''date_start'' (JStr []))
      \<and> year_end s =
          (if truthy (dict_get d ''date_end'' (JStr []))
              \<and> present_in_lower (dict_get d ''date_end'' (JStr [])) = Inr False
           then extract_year (dict_get d ''date_end'' (JStr []))
           else Some (int (fst now)))"
    if "process_entry now p sid n len (EObj d) = Inr s"
    using process_entry_years [OF that] by blast
  have b: "extract_year (JStr t) = Some y \<longleftrightarrow>
      (\<exists>i. d4_at t i \<and> (\<forall>j<i. \<not> d4_at t j) \<and> y = int (int_of_digits (take 4 (drop i t))))"
  proof
    assume "extract_year (JStr t) = Some y"
    then obtain ds where ds: "search_d4 t = Some ds" "y = int (int_of_digits ds)"
      unfolding extract_year_str by (cases "search_d4 t") auto
    then show "\<exists>i. d4_at t i \<and> (\<forall>j<i. \<not> d4_at t j)
        \<and> y = int (int_of_digits (take 4 (drop i t)))"
      using search_d4_first [of t ds] by blast
  next
    assume "\<exists>i. d4_at t i \<and> (\<forall>j<i. \<not> d4_at t j)
        \<and> y = int (int_of_digits (take 4 (drop i t)))"
    then obtain i where i: "d4_at t i" "\<forall>j<i. \<not> d4_at t j"
        "y = int (int_of_digits (take 4 (drop i t)))"
      by blast
    then have "search_d4 t = Some (take 4 (drop i t))"
      using search_d4_first [of t "take 4 (drop i t)"] by blast
    then show "extract_year (JStr t) = Some y"
      unfolding extract_year_str using i(3) by simp
  qed
  have c: "extract_year (JStr t) = None \<longleftrightarrow> (\<forall>i. \<not> d4_at t i)"
    unfolding extract_year_str using search_d4_None [of t] by simp
  show ?thesis
    using a b c by blast
qed

theorem year_bounds_of_stint_witness:
  "map_sum id year_end
     (process_entry sample_now (sample_player ''p1'' ''Ana'') 1 1 1 entry_A)
   = Inr (Some 2020)"
proof -
  obtain s where s: "process_entry sample_now (sample_player ''p1'' ''Ana'') 1 1 1 entry_A = Inr s"
    using process_entry_ok_iff [of sample_now "sample_player ''p1'' ''Ana''" 1 1 1 entry_A]
      entry_ok_samples(1)
    by blast
  have e: "entry_A = EObj [(''date_start'', JStr ''2020-01-01''), (''date_end'', JStr ''2020-06-30''),
           (''date_range'', JStr (''2020-01-01'' @ '' - '' @ ''2020-06-30'')),
           (''team'', JStr ''Team A''), (''status'', JStr ''Active'')]"
    by (simp only: entry_A_def sample_entry_def)
  have "year_end s = Some 2020"
    using year_bounds_of_stint
      [of sample_now "sample_player ''p1'' ''Ana''" 1 1 1
          "[(''date_start'', JStr ''2020-01-01''), (''date_end'', JStr ''2020-06-30''),
           (''date_range'', JStr (''2020-01-01'' @ '' - '' @ ''2020-06-30'')),
           (''team'', JStr ''Team A''), (''status'', JStr ''Active'')]" s]
      s [unfolded e]
    by (simp add: dict_get_def year_samples del: present_in_lower.simps)
  then show ?thesis
    unfolding s by simp
qed

theorem year_end_empty_date_end_counterexample:
  "map_sum id year_end
     (process_entry sample_now (sample_player ''p1'' ''Ana'') 1 1 1
        (sample_entry ''2020-01-01'' [] ''Team A''))
   = Inr (Some 2026)
   \<and> extract_year (JStr []) = None
   \<and> JStr [] \<noteq> JStr ''Present''"
  by (simp add: process_entry_def sample_entry_def dict_get_def is_current_of_def
        year_end_of_def sample_now_def year_samples(2) Let_def)


section \<open>Properties of the end date\<close>

lemma starts_with_prefix: "starts_with p s \<longleftrightarrow> prefix p s"
  by (induction p s rule: starts_with.induct) simp_all

lemma py_in_sublist: "py_in sub s \<longleftrightarrow> sublist sub s"
proof (induction s)
  case Nil
  show ?case by simp
next
  case (Cons c cs)
  have "py_in sub (c # cs) \<longleftrightarrow> prefix sub (c # cs) \<or> py_in sub cs"
    by (simp only: py_in.simps starts_with_prefix)
  also have "\<dots> \<longleftrightarrow> prefix sub (c # cs) \<or> sublist sub cs"
    by (simp only: Cons.IH)
  also have "\<dots> \<longleftrightarrow> sublist sub (c # cs)"
    by (simp only: sublist_Cons_right)
  finally show ?case .
qed

lemma iso_prefix_length: "iso_prefix s \<Longrightarrow> 10 \<le> length s"
  by (simp add: iso_prefix_def)

lemma iso_prefix_take: "iso_prefix s \<Longrightarrow> iso_prefix (take 10 s)"
  by (simp add: iso_prefix_def drop_take)

lemma findall_iso_Nil: "findall_iso [] = []"
  by (simp add: findall_iso.simps)

lemma findall_iso_match:
  "iso_prefix s \<Longrightarrow> findall_iso s = take 10 s # findall_iso (drop 10 s)"
  using iso_prefix_length [of s] by (subst findall_iso.simps) auto

lemma findall_iso_skip:
  "\<not> iso_prefix s \<Longrightarrow> findall_iso s = findall_iso (tl s)"
  by (subst findall_iso.simps) (simp add: findall_iso_Nil)

lemma findall_iso_elems:
  "m \<in> set (findall_iso s) \<Longrightarrow> length m = 10 \<and> iso_prefix m \<and> sublist m s"
proof (induction s rule: findall_iso.induct)
  case (1 s)
  show ?case
  proof (cases "iso_prefix s")
    case True
    then have ne: "s \<noteq> []"
      using iso_prefix_length [of s] by auto
    from "1.prems" True have "m = take 10 s \<or> m \<in> set (findall_iso (drop 10 s))"
      by (simp add: findall_iso_match)
    then show ?thesis
    proof
      assume m: "m = take 10 s"
      have "length m = 10"
        using m iso_prefix_length [OF True] by simp
      moreover have "iso_prefix m"
        unfolding m using True by (rule iso_prefix_take)
      moreover have "sublist m s"
        unfolding m by (rule sublist_take)
      ultimately show ?thesis by blast
    next
      assume "m \<in> set (findall_iso (drop 10 s))"
      then have ih: "length m = 10 \<and> iso_prefix m \<and> sublist m (drop 10 s)"
        using "1.IH"(1) [OF ne True] by blast
      then have "sublist m s"
        using sublist_drop [of 10 s] sublist_order.order.trans by blast
      with ih show ?thesis by blast
    qed
  next
    case False
    show ?thesis
    proof (cases "s = []")
      case True
      with "1.prems" show ?thesis by (simp add: findall_iso_Nil)
    next
      case ne: False
      from "1.prems" False have "m \<in> set (findall_iso (tl s))"
        by (simp add: findall_iso_skip)
      then have ih: "length m = 10 \<and> iso_prefix m \<and> sublist m (tl s)"
        using "1.IH"(2) [OF ne False] by blast
      then have "sublist m s"
        using sublist_tl [of s] sublist_order.order.trans by blast
      with ih show ?thesis by blast
    qed
  qed
qed

lemma findall_iso_empty_iff: "findall_iso s = [] \<longleftrightarrow> (\<forall>i. \<not> iso_prefix (drop i s))"
proof (induction s rule: findall_iso.induct)
  case (1 s)
  show ?case
  proof (cases "iso_prefix s")
    case True
    then have "findall_iso s \<noteq> []"
      by (simp add: findall_iso_match)
    moreover have "iso_prefix (drop 0 s)"
      using True by simp
    ultimately show ?thesis by blast
  next
    case False
    show ?thesis
    proof (cases "s = []")
      case True
      then show ?thesis by (simp add: findall_iso_Nil iso_prefix_def)
    next
      case ne: False
      have "findall_iso s = [] \<longleftrightarrow> (\<forall>i. \<not> iso_prefix (drop i (tl s)))"
        using "1.IH"(2) [OF ne False] False by (simp add: findall_iso_skip)
      also have "\<dots> \<longleftrightarrow> (\<forall>i. \<not> iso_prefix (drop (Suc i) s))"
        by (simp only: drop_Suc)
      also have "\<dots> \<longleftrightarrow> (\<forall>i. \<not> iso_prefix (drop i s))"
      proof
        assume a: "\<forall>i. \<not> iso_prefix (drop (Suc i) s)"
        show "\<forall>i. \<not> iso_prefix (drop i s)"
        proof
          fix i
          show "\<not> iso_prefix (drop i s)"
            using a False by (cases i) simp_all
        qed
      next
        assume "\<forall>i. \<not> iso_prefix (drop i s)"
        then show "\<forall>i. \<not> iso_prefix (drop (Suc i) s)"
          by blast
      qed
      finally show ?thesis .
    qed
  qed
qed

lemma iso_prefix_append: "iso_prefix a \<Longrightarrow> iso_prefix (a @ r)"
  by (simp add: iso_prefix_def nth_append)

lemma findall_iso_date_first:
  assumes "length a = 10" "iso_prefix a"
  shows "findall_iso (a @ r) = a # findall_iso r"
  using findall_iso_match [OF iso_prefix_append [OF assms(2), of r]] assms(1) by simp

lemma not_iso_prefix_nondigit: "\<not> is_digit c \<Longrightarrow> \<not> iso_prefix (c # cs)"
  by (cases cs) (auto simp: iso_prefix_def)

lemma findall_iso_digit_free:
  "list_all (\<lambda>c. \<not> is_digit c) sep \<Longrightarrow> findall_iso (sep @ r) = findall_iso r"
proof (induction sep)
  case Nil
  show ?case by simp
next
  case (Cons c sep)
  then have "\<not> iso_prefix (c # sep @ r)"
    by (simp add: not_iso_prefix_nondigit)
  then have "findall_iso ((c # sep) @ r) = findall_iso (sep @ r)"
    using findall_iso_skip [of "c # sep @ r"] by simp
  with Cons show ?case by simp
qed

lemma findall_iso_two_dates:
  assumes "length a = 10" "iso_prefix a" "length b = 10" "iso_prefix b"
    and "list_all (\<lambda>c. \<not> is_digit c) sep"
  shows "findall_iso (a @ sep @ b) = [a, b]"
proof -
  have "findall_iso (b @ []) = b # findall_iso []"
    using assms(3,4) by (rule findall_iso_date_first)
  then have b: "findall_iso b = [b]"
    by (simp add: findall_iso_Nil)
  have "findall_iso (a @ sep @ b) = a # findall_iso (sep @ b)"
    using assms(1,2) by (rule findall_iso_date_first)
  also have "findall_iso (sep @ b) = findall_iso b"
    using assms(5) by (rule findall_iso_digit_free)
  finally show ?thesis
    using b by simp
qed

lemma findall_iso_one_date:
  assumes "length a = 10" "iso_prefix a"
    and "list_all (\<lambda>c. \<not> is_digit c) pre" "list_all (\<lambda>c. \<not> is_digit c) post"
  shows "findall_iso (pre @ a @ post) = [a]"
proof -
  have "findall_iso (post @ []) = findall_iso []"
    using assms(4) by (rule findall_iso_digit_free)
  then have p: "findall_iso post = []"
    by (simp add: findall_iso_Nil)
  have "findall_iso (pre @ a @ post) = findall_iso (a @ post)"
    using assms(3) by (rule findall_iso_digit_free)
  also have "\<dots> = a # findall_iso post"
    using assms(1,2) by (rule findall_iso_date_first)
  finally show ?thesis
    using p by simp
qed

lemma end_date_samples:
  "iso_prefix ''2020-04-13''" "iso_prefix ''2020-07-02''"
  "sublist ''Present'' ''2020-04-13 - 2020-07-02'' = False"
  "sublist ''present'' ''2020-04-13 - 2020-07-02'' = False"
  "list_all (\<lambda>c. \<not> is_digit c) '' - ''"
  by (simp_all add: iso_prefix_def is_digit_def py_in_sublist [symmetric])

text \<open>
  Claim C5, as the code has it.  \<open>date_end\<close> is \<open>"Present"\<close> when the string contains
  \<open>Present\<close> or \<open>present\<close>, these two spellings only.  Otherwise it is the last match of
  the ISO date pattern when \<open>re.findall\<close> finds at least two matches (from left to right,
  not overlapping), and it is empty when there is one match or none.  Every match is an
  ISO-shaped substring of ten characters; there is no match exactly when no ISO date
  starts anywhere in the string.  Two dates around a separator without digits give the
  second date, and a single date gives the empty end.
\<close>

theorem extract_end_date_rule:
  "(sublist ''Present'' s \<or> sublist ''present'' s \<longrightarrow> extract_end_date s = ''Present'')
   \<and> (\<not> sublist ''Present'' s \<and> \<not> sublist ''present'' s \<and> 2 \<le> length (findall_iso s) \<longrightarrow>
        extract_end_date s = last (findall_iso s))
   \<and> (\<not> sublist ''Present'' s \<and> \<not> sublist ''present'' s \<and> length (findall_iso s) < 2 \<longrightarrow>
        extract_end_date s = [])
   \<and> (\<forall>m \<in> set (findall_iso s). length m = 10 \<and> iso_prefix m \<and> sublist m s)
   \<and> (findall_iso s = [] \<longleftrightarrow> (\<forall>i. \<not> iso_prefix (drop i s)))
   \<and> (length a = 10 \<and> iso_prefix a \<and> length b = 10 \<and> iso_prefix b
        \<and> list_all (\<lambda>c. \<not> is_digit c) sep
        \<and> \<not> sublist ''Present'' (a @ sep @ b) \<and> \<not> sublist ''present'' (a @ sep @ b) \<longrightarrow>
        extract_end_date (a @ sep @ b) = b)
   \<and> (length a = 10 \<and> iso_prefix a
        \<and> list_all (\<lambda>c. \<not> is_digit c) pre \<and> list_all (\<lambda>c. \<not> is_digit c) post
        \<and> \<not> sublist ''Present'' (pre @ a @ post) \<and> \<not> sublist ''present'' (pre @ a @ post) \<longrightarrow>
        extract_end_date (pre @ a @ post) = [])"
proof -
  have c1: "extract_end_date s = ''Present''"
    if "sublist ''Present'' s \<or> sublist ''present'' s"
    using that by (simp add: extract_end_date_def py_in_sublist)
  have c2: "extract_end_date s = last (findall_iso s)"
    if "\<not> sublist ''Present'' s \<and> \<not> sublist ''present'' s \<and> 2 \<le> length (findall_iso s)"
    using that by (simp add: extract_end_date_def py_in_sublist Let_def)
  have c3: "extract_end_date s = []"
    if "\<not> sublist ''Present'' s \<and> \<not> sublist ''present'' s \<and> length (findall_iso s) < 2"
    using that by (simp add: extract_end_date_def py_in_sublist Let_def)
  have c4: "\<forall>m \<in> set (findall_iso s). length m = 10 \<and> iso_prefix m \<and> sublist m s"
    using findall_iso_elems by blast
  have c6: "extract_end_date (a @ sep @ b) = b"
    if "length a = 10 \<and> iso_prefix a \<and> length b = 10 \<and> iso_prefix b
        \<and> list_all (\<lambda>c. \<not> is_digit c) sep
        \<and> \<not> sublist ''Present'' (a @ sep @ b) \<and> \<not> sublist ''present'' (a @ sep @ b)"
  proof -
    have "findall_iso (a @ sep @ b) = [a, b]"
      using that by (intro findall_iso_two_dates) blast+
    then show ?thesis
      using that by (simp add: extract_end_date_def py_in_sublist Let_def)
  qed
  have c7: "extract_end_date (pre @ a @ post) = []"
    if "length a = 10 \<and> iso_prefix a
        \<and> list_all (\<lambda>c. \<not> is_digit c) pre \<and> list_all (\<lambda>c. \<not> is_digit c) post
        \<and> \<not> sublist ''Present'' (pre @ a @ post) \<and> \<not> sublist ''present'' (pre @ a @ post)"
  proof -
    have "findall_iso (pre @ a @ post) = [a]"
      using that by (intro findall_iso_one_date) blast+
    then show ?thesis
      using that by (simp add: extract_end_date_def py_in_sublist Let_def)
  qed
  show ?thesis
    using c1 c2 c3 c4 findall_iso_empty_iff [of s] c6 c7 by blast
qed

theorem extract_end_date_rule_witness:
  "extract_end_date (''2020-04-13'' @ '' - '' @ ''2020-07-02'') = ''2020-07-02''
   \<and> extract_end_date ''2020-04-13'' = []"
proof -
  have t: "extract_end_date (''2020-04-13'' @ '' - '' @ ''2020-07-02'') = ''2020-07-02''"
    using extract_end_date_rule
      [of "''2020-04-13'' @ '' - '' @ ''2020-07-02''" "''2020-04-13''" "''2020-07-02''"
          "'' - ''" "[]" "[]"]
      end_date_samples
    by simp
  have "sublist ''Present'' ''2020-04-13'' = False" "sublist ''present'' ''2020-04-13'' = False"
    by (simp_all add: py_in_sublist [symmetric])
  then have o: "extract_end_date ([] @ ''2020-04-13'' @ []) = []"
    using extract_end_date_rule
      [of "''2020-04-13''" "''2020-04-13''" "[]" "[]" "[]" "[]"]
      end_date_samples(1)
    by simp
  show ?thesis
    using t o by simp
qed

theorem extract_end_date_uppercase_counterexample:
  "py_in (lower ''Present'') (lower ''2020-04-13 - PRESENT'')
   \<and> extract_end_date ''2020-04-13 - PRESENT'' = []
   \<and> extract_end_date ''2020-04-13 - PRESENT'' \<noteq> ''Present''"
  by code_simp


section \<open>Properties of the status\<close>












end
